theory Spec2Isabelle
  imports Main
begin

section \<open>Python values and exceptions\<close>

text \<open>
  The values that cross the tool boundary are JSON-like Python values: what
  \<^verbatim>\<open>json.loads\<close> produces, what the Spotify client returns and what
  \<^verbatim>\<open>json.dumps\<close> serialises. A dict is an association list in insertion order.
\<close>

datatype pyval =
    PNone
  | PBool bool
  | PInt int
  | PStr string
  | PList "pyval list"
  | PDict "(string \<times> pyval) list"

text \<open>Python's truth test, as used by \<^verbatim>\<open>if x\<close> and \<^verbatim>\<open>not x\<close>.\<close>

fun truthy :: "pyval \<Rightarrow> bool" where
  "truthy PNone = False"
| "truthy (PBool b) = b"
| "truthy (PInt n) = (n \<noteq> 0)"
| "truthy (PStr s) = (s \<noteq> [])"
| "truthy (PList xs) = (xs \<noteq> [])"
| "truthy (PDict kvs) = (kvs \<noteq> [])"

text \<open>
  The truth test of an \<^verbatim>\<open>Optional[str]\<close> parameter: \<^verbatim>\<open>None\<close> and the empty
  string are both false.
\<close>

fun truthy_str :: "string option \<Rightarrow> bool" where
  "truthy_str None = False"
| "truthy_str (Some s) = (s \<noteq> [])"

text \<open>
  An exception is an instance of Python's \<^verbatim>\<open>Exception\<close> class: its class, as far
  as a handler of the program tells classes apart, and the text \<^verbatim>\<open>str(e)\<close>.
\<close>

datatype exc_class = JSONDecodeError | AttributeError | TypeError | OtherException

datatype py_exc = PyExc (exc_cls: exc_class) (exc_str: string)

fun type_name :: "pyval \<Rightarrow> string" where
  "type_name PNone = ''NoneType''"
| "type_name (PBool _) = ''bool''"
| "type_name (PInt _) = ''int''"
| "type_name (PStr _) = ''str''"
| "type_name (PList _) = ''list''"
| "type_name (PDict _) = ''dict''"

definition quoted :: "string \<Rightarrow> string" where
  "quoted s = CHR 0x27 # s @ [CHR 0x27]"

text \<open>
  \<^verbatim>\<open>x.get(key, default)\<close>: only a dict has the method; on any other value the
  attribute lookup raises AttributeError.
\<close>

fun py_get :: "pyval \<Rightarrow> string \<Rightarrow> pyval \<Rightarrow> py_exc + pyval" where
  "py_get (PDict kvs) k d = Inr (case map_of kvs k of Some v \<Rightarrow> v | None \<Rightarrow> d)"
| "py_get v k d =
     Inl (PyExc AttributeError (quoted (type_name v) @ '' object has no attribute '' @ quoted ''get''))"

text \<open>
  The functions of Python's library that the program calls. They are not code of the
  repository, so the tools take them as parameters: \<^verbatim>\<open>json.loads(s)\<close>,
  \<^verbatim>\<open>json.dumps(v, indent=2)\<close> and \<^verbatim>\<open>str(v)\<close>.
\<close>

record pylib =
  json_loads :: "string \<Rightarrow> py_exc + pyval"
  json_dumps :: "pyval \<Rightarrow> py_exc + string"
  py_str :: "pyval \<Rightarrow> string"

text \<open>\<^verbatim>\<open>sep.join(xs)\<close>\<close>

fun join :: "string \<Rightarrow> string list \<Rightarrow> string" where
  "join sep [] = []"
| "join sep [x] = x"
| "join sep (x # y # ys) = x @ sep @ join sep (y # ys)"

section \<open>The tool server (sse-server.py)\<close>

text \<open>
  The methods of \<^verbatim>\<open>spotify_client\<close>, with the arguments the tools pass. The client
  is a collaborator outside the repository's sources: it is a parameter that answers a
  call with a value or raises. Each tool returns what the Python function returns (or
  the exception that leaves it), together with the list of client calls it made, in
  order. Writes of the logger to stderr are not part of the model.
\<close>

datatype backend_call =
    GetCurrentTrack
  | StartPlayback "string option"
  | PausePlayback
  | SkipTrack "int option"
  | Search string string int
  | AddToQueue string
  | GetQueue
  | GetInfo string
  | GetCurrentUserPlaylists
  | GetPlaylistTracks string
  | AddTracksToPlaylist string pyval
  | RemoveTracksFromPlaylist string pyval
  | ChangePlaylistDetails string "string option" "string option"

type_synonym backend = "backend_call \<Rightarrow> py_exc + pyval"

type_synonym tool_result = "(py_exc + string) \<times> backend_call list"

text \<open>The handler \<^verbatim>\<open>except Exception as e: return f"Error: {str(e)}"\<close> of every tool.\<close>

definition except_Exception :: "tool_result \<Rightarrow> tool_result" where
  "except_Exception r =
     (case fst r of
        Inl e \<Rightarrow> (Inr (''Error: '' @ exc_str e), snd r)
      | Inr s \<Rightarrow> (Inr s, snd r))"

text \<open>A client call whose value is serialised: \<^verbatim>\<open>return json.dumps(client.m(..), indent=2)\<close>.\<close>

definition call_dumps :: "pylib \<Rightarrow> backend \<Rightarrow> backend_call \<Rightarrow> tool_result" where
  "call_dumps lib spotify_client c =
     (case spotify_client c of
        Inl e \<Rightarrow> (Inl e, [c])
      | Inr v \<Rightarrow> (json_dumps lib v, [c]))"

text \<open>A client call whose value is dropped, followed by a fixed text.\<close>

definition call_then :: "backend \<Rightarrow> backend_call \<Rightarrow> string \<Rightarrow> tool_result" where
  "call_then spotify_client c txt =
     (case spotify_client c of
        Inl e \<Rightarrow> (Inl e, [c])
      | Inr _ \<Rightarrow> (Inr txt, [c]))"

subsection \<open>playback\<close>

definition playback_try ::
  "pylib \<Rightarrow> backend \<Rightarrow> string \<Rightarrow> string option \<Rightarrow> int option \<Rightarrow> tool_result" where
  "playback_try lib spotify_client action spotify_uri num_skips =
     (if action = ''get'' then
        (case spotify_client GetCurrentTrack of
           Inl e \<Rightarrow> (Inl e, [GetCurrentTrack])
         | Inr curr_track \<Rightarrow>
             if truthy curr_track then
               (case py_get curr_track ''name'' (PStr ''Unknown'') of
                  Inl e \<Rightarrow> (Inl e, [GetCurrentTrack])
                | Inr _ \<Rightarrow> (json_dumps lib curr_track, [GetCurrentTrack]))
             else (Inr ''No track playing.'', [GetCurrentTrack]))
      else if action = ''start'' then
        call_then spotify_client (StartPlayback spotify_uri) ''Playback starting.''
      else if action = ''pause'' then
        call_then spotify_client PausePlayback ''Playback paused.''
      else if action = ''skip'' then
        call_then spotify_client (SkipTrack num_skips) ''Skipped to next track.''
      else
        (Inr (''Unknown action: '' @ action @ ''. Supported actions are: get, start, pause, skip.''), []))"

definition playback ::
  "pylib \<Rightarrow> backend \<Rightarrow> string \<Rightarrow> string option \<Rightarrow> int option \<Rightarrow> tool_result" where
  "playback lib spotify_client action spotify_uri num_skips =
     except_Exception (playback_try lib spotify_client action spotify_uri num_skips)"

subsection \<open>search\<close>

definition search_try :: "pylib \<Rightarrow> backend \<Rightarrow> string \<Rightarrow> string \<Rightarrow> int \<Rightarrow> tool_result" where
  "search_try lib spotify_client query qtype limit =
     call_dumps lib spotify_client (Search query qtype limit)"

definition search :: "pylib \<Rightarrow> backend \<Rightarrow> string \<Rightarrow> string \<Rightarrow> int \<Rightarrow> tool_result" where
  "search lib spotify_client query qtype limit =
     except_Exception (search_try lib spotify_client query qtype limit)"

subsection \<open>queue\<close>

definition queue_try :: "pylib \<Rightarrow> backend \<Rightarrow> string \<Rightarrow> string option \<Rightarrow> tool_result" where
  "queue_try lib spotify_client action track_id =
     (if action = ''add'' then
        (case track_id of
           None \<Rightarrow> (Inr ''track_id is required for add action'', [])
         | Some t \<Rightarrow>
             if t = [] then (Inr ''track_id is required for add action'', [])
             else call_then spotify_client (AddToQueue t) ''Track added to queue.'')
      else if action = ''get'' then
        call_dumps lib spotify_client GetQueue
      else
        (Inr (''Unknown queue action: '' @ action @ ''. Supported actions are: add, get.''), []))"

definition queue :: "pylib \<Rightarrow> backend \<Rightarrow> string \<Rightarrow> string option \<Rightarrow> tool_result" where
  "queue lib spotify_client action track_id =
     except_Exception (queue_try lib spotify_client action track_id)"

subsection \<open>get\_info\<close>

definition get_info_try :: "pylib \<Rightarrow> backend \<Rightarrow> string \<Rightarrow> tool_result" where
  "get_info_try lib spotify_client item_uri = call_dumps lib spotify_client (GetInfo item_uri)"

definition get_info :: "pylib \<Rightarrow> backend \<Rightarrow> string \<Rightarrow> tool_result" where
  "get_info lib spotify_client item_uri =
     except_Exception (get_info_try lib spotify_client item_uri)"

subsection \<open>playlist\<close>

text \<open>
  \<^verbatim>\<open>json.loads(track_ids) if isinstance(track_ids, str) else track_ids\<close> inside
  \<^verbatim>\<open>try ... except json.JSONDecodeError\<close>: the outcome is the decoded value, the
  early return of the handler, or another exception, which leaves the inner \<^verbatim>\<open>try\<close>.
\<close>

datatype decoded = Decoded pyval | NotJson | Raised py_exc

definition decode_track_ids :: "pylib \<Rightarrow> pyval \<Rightarrow> decoded" where
  "decode_track_ids lib track_ids =
     (case track_ids of
        PStr s \<Rightarrow>
          (case json_loads lib s of
             Inr v \<Rightarrow> Decoded v
           | Inl e \<Rightarrow> if exc_cls e = JSONDecodeError then NotJson else Raised e)
      | _ \<Rightarrow> Decoded track_ids)"

definition playlist_try ::
  "pylib \<Rightarrow> backend \<Rightarrow> string \<Rightarrow> string option \<Rightarrow> pyval \<Rightarrow> string option \<Rightarrow> string option
     \<Rightarrow> tool_result" where
  "playlist_try lib spotify_client action playlist_id track_ids name description =
     (if action = ''get'' then
        call_dumps lib spotify_client GetCurrentUserPlaylists
      else if action = ''get_tracks'' then
        (case playlist_id of
           None \<Rightarrow> (Inr ''playlist_id is required for get_tracks action.'', [])
         | Some p \<Rightarrow>
             if p = [] then (Inr ''playlist_id is required for get_tracks action.'', [])
             else call_dumps lib spotify_client (GetPlaylistTracks p))
      else if action = ''add_tracks'' then
        (case playlist_id of
           None \<Rightarrow> (Inr ''playlist_id and track_ids are required for add_tracks action.'', [])
         | Some p \<Rightarrow>
             if p = [] \<or> \<not> truthy track_ids then
               (Inr ''playlist_id and track_ids are required for add_tracks action.'', [])
             else
               (case decode_track_ids lib track_ids of
                  NotJson \<Rightarrow> (Inr ''Error: track_ids must be a valid JSON array.'', [])
                | Raised e \<Rightarrow> (Inl e, [])
                | Decoded track_ids_list \<Rightarrow>
                    call_then spotify_client (AddTracksToPlaylist p track_ids_list)
                      ''Tracks added to playlist.''))
      else if action = ''remove_tracks'' then
        (case playlist_id of
           None \<Rightarrow> (Inr ''playlist_id and track_ids are required for remove_tracks action.'', [])
         | Some p \<Rightarrow>
             if p = [] \<or> \<not> truthy track_ids then
               (Inr ''playlist_id and track_ids are required for remove_tracks action.'', [])
             else
               (case decode_track_ids lib track_ids of
                  NotJson \<Rightarrow> (Inr ''Error: track_ids must be a valid JSON array.'', [])
                | Raised e \<Rightarrow> (Inl e, [])
                | Decoded track_ids_list \<Rightarrow>
                    call_then spotify_client (RemoveTracksFromPlaylist p track_ids_list)
                      ''Tracks removed from playlist.''))
      else if action = ''change_details'' then
        (case playlist_id of
           None \<Rightarrow> (Inr ''playlist_id is required for change_details action.'', [])
         | Some p \<Rightarrow>
             if p = [] then (Inr ''playlist_id is required for change_details action.'', [])
             else if \<not> truthy_str name \<and> \<not> truthy_str description then
               (Inr ''At least one of name or description is required.'', [])
             else
               call_then spotify_client (ChangePlaylistDetails p name description)
                 ''Playlist details changed.'')
      else
        (Inr (''Unknown playlist action: '' @ action
              @ ''. Supported actions are: get, get_tracks, add_tracks, remove_tracks, change_details.''), []))"

definition playlist ::
  "pylib \<Rightarrow> backend \<Rightarrow> string \<Rightarrow> string option \<Rightarrow> pyval \<Rightarrow> string option \<Rightarrow> string option
     \<Rightarrow> tool_result" where
  "playlist lib spotify_client action playlist_id track_ids name description =
     except_Exception (playlist_try lib spotify_client action playlist_id track_ids name description)"

section \<open>The orchestration client (sse\_client.py)\<close>

text \<open>
  A conversation turn is a role and a content text. A response of the completion
  service is the list of the messages of its choices; a message carries an optional
  free text and optional tool calls, each a tool name and its arguments as JSON text.
  The result of \<^verbatim>\<open>session.call_tool\<close> is the list \<^verbatim>\<open>result.content\<close>, whose
  items have a \<^verbatim>\<open>text\<close> attribute or not (then \<^verbatim>\<open>str(item)\<close> is kept).
\<close>

type_synonym message = "string \<times> string"

record tool_call =
  tc_name :: string
  tc_arguments :: string

record llm_message =
  msg_content :: "string option"
  msg_tool_calls :: "tool_call list option"

datatype content_item = TextContent string | OtherContent string

type_synonym tool_descr = "string \<times> string \<times> pyval"

text \<open>
  Every interaction with a collaborator, with what was sent and what came back
  (\<open>Inl\<close>: the call raised). The completion request carries the conversation and the
  tool manifest, when one is passed.
\<close>

datatype event =
    ListTools "py_exc + tool_descr list"
  | Completion "message list" "tool_descr list option" "py_exc + llm_message list"
  | CallTool string pyval "py_exc + content_item list"

text \<open>
  The session and the completion service are collaborators: parameters whose answer
  may depend on everything that happened before (the events so far).
\<close>

record client_env =
  list_tools :: "event list \<Rightarrow> py_exc + tool_descr list"
  completion :: "event list \<Rightarrow> message list \<Rightarrow> tool_descr list option \<Rightarrow> py_exc + llm_message list"
  call_tool :: "event list \<Rightarrow> string \<Rightarrow> pyval \<Rightarrow> py_exc + content_item list"

text \<open>The local variables of \<^verbatim>\<open>process_query\<close>, and the events so far.\<close>

record pq_state =
  messages :: "message list"
  tool_results :: "(string \<times> content_item list) list"
  final_text :: "string list"
  trace :: "event list"

text \<open>The text taken from a tool result (lines 168 to 175).\<close>

definition response_text :: "content_item list \<Rightarrow> string" where
  "response_text result_content =
     (case result_content of
        [] \<Rightarrow> ''[]''
      | TextContent t # _ \<Rightarrow> t
      | OtherContent r # _ \<Rightarrow> r)"

text \<open>\<^verbatim>\<open>[message.content]\<close> when the content is truthy, else nothing.\<close>

definition content_lines :: "llm_message \<Rightarrow> string list" where
  "content_lines message =
     (case msg_content message of
        None \<Rightarrow> []
      | Some c \<Rightarrow> if c = [] then [] else [c])"

text \<open>\<^verbatim>\<open>message.content or ""\<close>\<close>

definition content_or_empty :: "llm_message \<Rightarrow> string" where
  "content_or_empty message = (case msg_content message of None \<Rightarrow> [] | Some c \<Rightarrow> c)"

text \<open>What line 194 and 195 append: the content of the first choice, when there is one.\<close>

definition first_choice_lines :: "llm_message list \<Rightarrow> string list" where
  "first_choice_lines choices = (case choices of [] \<Rightarrow> [] | m # _ \<Rightarrow> content_lines m)"

definition calling_line :: "pylib \<Rightarrow> string \<Rightarrow> pyval \<Rightarrow> string" where
  "calling_line lib tool_name tool_args =
     ''[Calling tool '' @ tool_name @ '' with args '' @ py_str lib tool_args @ '']''"

text \<open>
  The body of the inner \<^verbatim>\<open>for tool_call in message.tool_calls\<close> loop (lines 159 to
  195). An exception leaves the loops with the events so far.
\<close>

definition dispatch_call ::
  "pylib \<Rightarrow> client_env \<Rightarrow> llm_message \<Rightarrow> tool_call \<Rightarrow> pq_state \<Rightarrow> (py_exc \<times> event list) + pq_state" where
  "dispatch_call lib env message tc st =
     (case json_loads lib (tc_arguments tc) of
        Inl e \<Rightarrow> Inl (e, trace st)
      | Inr tool_args \<Rightarrow>
          (let result = call_tool env (trace st) (tc_name tc) tool_args;
               tr1 = trace st @ [CallTool (tc_name tc) tool_args result]
           in case result of
                Inl e \<Rightarrow> Inl (e, tr1)
              | Inr result_content \<Rightarrow>
                  (let msgs = messages st @
                         [(''assistant'', content_or_empty message),
                          (''user'', response_text result_content)];
                       response = completion env tr1 msgs None;
                       tr2 = tr1 @ [Completion msgs None response]
                   in case response of
                        Inl e \<Rightarrow> Inl (e, tr2)
                      | Inr choices \<Rightarrow>
                          Inr \<lparr>messages = msgs,
                               tool_results = tool_results st @ [(tc_name tc, result_content)],
                               final_text = final_text st
                                 @ [calling_line lib (tc_name tc) tool_args]
                                 @ first_choice_lines choices,
                               trace = tr2\<rparr>)))"

fun dispatch_calls ::
  "pylib \<Rightarrow> client_env \<Rightarrow> llm_message \<Rightarrow> tool_call list \<Rightarrow> pq_state \<Rightarrow> (py_exc \<times> event list) + pq_state" where
  "dispatch_calls lib env message [] st = Inr st"
| "dispatch_calls lib env message (tc # tcs) st =
     (case dispatch_call lib env message tc st of
        Inl x \<Rightarrow> Inl x
      | Inr st' \<Rightarrow> dispatch_calls lib env message tcs st')"

text \<open>The tool calls the loop runs for a message: none when the attribute is absent or falsy.\<close>

definition calls_of :: "llm_message \<Rightarrow> tool_call list" where
  "calls_of message = (case msg_tool_calls message of None \<Rightarrow> [] | Some tcs \<Rightarrow> tcs)"

text \<open>The body of the outer \<^verbatim>\<open>for choice in response.choices\<close> loop (lines 153 to 195).\<close>

definition process_choice ::
  "pylib \<Rightarrow> client_env \<Rightarrow> llm_message \<Rightarrow> pq_state \<Rightarrow> (py_exc \<times> event list) + pq_state" where
  "process_choice lib env message st =
     dispatch_calls lib env message (calls_of message)
       (st\<lparr>final_text := final_text st @ content_lines message\<rparr>)"

fun process_choices ::
  "pylib \<Rightarrow> client_env \<Rightarrow> llm_message list \<Rightarrow> pq_state \<Rightarrow> (py_exc \<times> event list) + pq_state" where
  "process_choices lib env [] st = Inr st"
| "process_choices lib env (m # ms) st =
     (case process_choice lib env m st of
        Inl x \<Rightarrow> Inl x
      | Inr st' \<Rightarrow> process_choices lib env ms st')"

text \<open>The block under \<^verbatim>\<open>try\<close> (lines 140 to 197), up to the \<^verbatim>\<open>return\<close>.\<close>

definition process_query_try ::
  "pylib \<Rightarrow> client_env \<Rightarrow> message list \<Rightarrow> tool_descr list \<Rightarrow> event list
     \<Rightarrow> (py_exc \<times> event list) + pq_state" where
  "process_query_try lib env msgs available_tools tr0 =
     (let response = completion env tr0 msgs (Some available_tools);
          tr1 = tr0 @ [Completion msgs (Some available_tools) response]
      in case response of
           Inl e \<Rightarrow> Inl (e, tr1)
         | Inr choices \<Rightarrow>
             process_choices lib env choices
               \<lparr>messages = msgs, tool_results = [], final_text = [], trace = tr1\<rparr>)"

text \<open>
  \<^verbatim>\<open>process_query\<close>: the value returned, or the exception that leaves the function
  (\<^verbatim>\<open>list_tools\<close> is called before the \<^verbatim>\<open>try\<close>), and the events of the run.
\<close>

definition process_query ::
  "pylib \<Rightarrow> client_env \<Rightarrow> string \<Rightarrow> (py_exc + string) \<times> event list" where
  "process_query lib env query =
     (let msgs = [(''user'', query)];
          listed = list_tools env []
      in case listed of
           Inl e \<Rightarrow> (Inl e, [ListTools listed])
         | Inr available_tools \<Rightarrow>
             (case process_query_try lib env msgs available_tools [ListTools listed] of
                Inl (e, tr) \<Rightarrow> (Inr (''Error processing query: '' @ exc_str e), tr)
              | Inr st \<Rightarrow> (Inr (join [CHR 0x0A] (final_text st)), trace st)))"

section \<open>A library instance for concrete runs\<close>

text \<open>
  An executable instance of the library parameters, for evaluating the tools on
  concrete inputs. It covers the JSON texts without floats and without backslash
  escapes in strings: \<open>sample_loads\<close> decodes such a text the way \<^verbatim>\<open>json.loads\<close> does
  (scanner, array and object loops of the standard decoder) and answers any other text
  with JSONDecodeError, whose message does not reproduce the position.
\<close>

definition is_ws :: "char \<Rightarrow> bool" where
  "is_ws c = (c = CHR '' '' \<or> c = CHR 0x09 \<or> c = CHR 0x0A \<or> c = CHR 0x0D)"

definition skip_ws :: "string \<Rightarrow> string" where
  "skip_ws s = dropWhile is_ws s"

definition is_digit :: "char \<Rightarrow> bool" where
  "is_digit c = ((48::nat) \<le> of_char c \<and> (of_char c :: nat) \<le> 57)"

text \<open>The characters of a string up to the closing quote; the opening quote is consumed.\<close>

fun scan_string :: "string \<Rightarrow> string \<Rightarrow> (string \<times> string) option" where
  "scan_string acc [] = None"
| "scan_string acc (c # cs) =
     (if c = CHR 0x22 then Some (rev acc, cs)
      else if c = CHR 0x5C \<or> (of_char c :: nat) < 32 then None
      else scan_string (c # acc) cs)"

definition digits_value :: "string \<Rightarrow> int" where
  "digits_value ds = foldl (\<lambda>a d. 10 * a + (int (of_char d) - 48)) 0 ds"

text \<open>An integer: an optional minus sign, then a single 0 or digits that start with 1 to 9.\<close>

definition scan_int :: "string \<Rightarrow> (int \<times> string) option" where
  "scan_int s =
     (let neg = (s \<noteq> [] \<and> hd s = CHR ''-'');
          r = (if neg then tl s else s);
          ds = takeWhile is_digit r
      in if ds = [] then None
         else if hd ds = CHR ''0'' then Some (0, tl r)
         else Some ((if neg then - digits_value ds else digits_value ds), dropWhile is_digit r))"

text \<open>\<^verbatim>\<open>d[k] = v\<close> on an insertion-ordered dict.\<close>

fun dict_set :: "string \<Rightarrow> pyval \<Rightarrow> (string \<times> pyval) list \<Rightarrow> (string \<times> pyval) list" where
  "dict_set k v [] = [(k, v)]"
| "dict_set k v (p # ps) = (if fst p = k then (k, v) # ps else p # dict_set k v ps)"

text \<open>
  One value at the head of the text, with the rest of the text. The first argument
  bounds the nesting depth; \<open>sample_loads\<close> starts it above the length of the text.
\<close>

fun scan_once :: "nat \<Rightarrow> string \<Rightarrow> (pyval \<times> string) option"
  and scan_array :: "nat \<Rightarrow> pyval list \<Rightarrow> string \<Rightarrow> (pyval \<times> string) option"
  and scan_object :: "nat \<Rightarrow> (string \<times> pyval) list \<Rightarrow> string \<Rightarrow> (pyval \<times> string) option"
where
  "scan_once 0 s = None"
| "scan_once (Suc n) s =
     (if s = [] then None
      else if hd s = CHR 0x22 then
        (case scan_string [] (tl s) of None \<Rightarrow> None | Some (t, r) \<Rightarrow> Some (PStr t, r))
      else if hd s = CHR ''{'' then
        (let r = skip_ws (tl s) in
         if r \<noteq> [] \<and> hd r = CHR ''}'' then Some (PDict [], tl r) else scan_object n [] r)
      else if hd s = CHR ''['' then
        (let r = skip_ws (tl s) in
         if r \<noteq> [] \<and> hd r = CHR '']'' then Some (PList [], tl r) else scan_array n [] r)
      else if take 4 s = ''null'' then Some (PNone, drop 4 s)
      else if take 4 s = ''true'' then Some (PBool True, drop 4 s)
      else if take 5 s = ''false'' then Some (PBool False, drop 5 s)
      else (case scan_int s of None \<Rightarrow> None | Some (i, r) \<Rightarrow> Some (PInt i, r)))"
| "scan_array 0 acc s = None"
| "scan_array (Suc n) acc s =
     (case scan_once n s of
        None \<Rightarrow> None
      | Some (v, r) \<Rightarrow>
          (let r1 = skip_ws r in
           if r1 = [] then None
           else if hd r1 = CHR '']'' then Some (PList (acc @ [v]), tl r1)
           else if hd r1 = CHR '','' then scan_array n (acc @ [v]) (skip_ws (tl r1))
           else None))"
| "scan_object 0 acc s = None"
| "scan_object (Suc n) acc s =
     (if s = [] \<or> hd s \<noteq> CHR 0x22 then None
      else
        (case scan_string [] (tl s) of
           None \<Rightarrow> None
         | Some (k, r) \<Rightarrow>
             (let r1 = skip_ws r in
              if r1 = [] \<or> hd r1 \<noteq> CHR '':'' then None
              else
                (case scan_once n (skip_ws (tl r1)) of
                   None \<Rightarrow> None
                 | Some (v, r2) \<Rightarrow>
                     (let r3 = skip_ws r2; acc' = dict_set k v acc in
                      if r3 = [] then None
                      else if hd r3 = CHR ''}'' then Some (PDict acc', tl r3)
                      else if hd r3 = CHR '','' then scan_object n acc' (skip_ws (tl r3))
                      else None)))))"

definition sample_loads :: "string \<Rightarrow> py_exc + pyval" where
  "sample_loads s =
     (case scan_once (Suc (length s)) (skip_ws s) of
        None \<Rightarrow> Inl (PyExc JSONDecodeError ''Expecting value'')
      | Some (v, r) \<Rightarrow>
          if skip_ws r = [] then Inr v else Inl (PyExc JSONDecodeError ''Extra data''))"

fun show_nat :: "nat \<Rightarrow> string" where
  "show_nat n =
     (if n < 10 then [char_of (48 + n)] else show_nat (n div 10) @ [char_of (48 + n mod 10)])"

declare show_nat.simps [simp del]

definition show_int :: "int \<Rightarrow> string" where
  "show_int i = (if i < 0 then CHR ''-'' # show_nat (nat (- i)) else show_nat (nat i))"

text \<open>\<^verbatim>\<open>repr(v)\<close>, for strings of printable characters without quotes or backslashes.\<close>

fun py_repr :: "pyval \<Rightarrow> string" where
  "py_repr PNone = ''None''"
| "py_repr (PBool b) = (if b then ''True'' else ''False'')"
| "py_repr (PInt i) = show_int i"
| "py_repr (PStr s) = quoted s"
| "py_repr (PList xs) = ''['' @ join '', '' (map py_repr xs) @ '']''"
| "py_repr (PDict kvs) =
     ''{'' @ join '', '' (map (\<lambda>kv. quoted (fst kv) @ '': '' @ py_repr (snd kv)) kvs) @ ''}''"

definition sample_str :: "pyval \<Rightarrow> string" where
  "sample_str v = (case v of PStr s \<Rightarrow> s | _ \<Rightarrow> py_repr v)"

definition nl_indent :: "nat \<Rightarrow> string" where
  "nl_indent level = CHR 0x0A # replicate (2 * level) CHR '' ''"

definition json_string :: "string \<Rightarrow> string" where
  "json_string s =
     CHR 0x22 # concat (map (\<lambda>c. if c = CHR 0x22 \<or> c = CHR 0x5C then [CHR 0x5C, c] else [c]) s)
       @ [CHR 0x22]"

text \<open>\<^verbatim>\<open>json.dumps(v, indent=2)\<close> at a nesting level, for strings of printable ASCII.\<close>

fun dumps_at :: "nat \<Rightarrow> pyval \<Rightarrow> string" where
  "dumps_at l PNone = ''null''"
| "dumps_at l (PBool b) = (if b then ''true'' else ''false'')"
| "dumps_at l (PInt i) = show_int i"
| "dumps_at l (PStr s) = json_string s"
| "dumps_at l (PList xs) =
     (if xs = [] then ''[]''
      else ''['' @ nl_indent (Suc l)
        @ join ('','' @ nl_indent (Suc l)) (map (dumps_at (Suc l)) xs)
        @ nl_indent l @ '']'')"
| "dumps_at l (PDict kvs) =
     (if kvs = [] then ''{}''
      else ''{'' @ nl_indent (Suc l)
        @ join ('','' @ nl_indent (Suc l))
            (map (\<lambda>kv. json_string (fst kv) @ '': '' @ dumps_at (Suc l) (snd kv)) kvs)
        @ nl_indent l @ ''}'')"

definition sample_dumps :: "pyval \<Rightarrow> py_exc + string" where
  "sample_dumps v = Inr (dumps_at 0 v)"

definition sample_lib :: pylib where
  "sample_lib = \<lparr>json_loads = sample_loads, json_dumps = sample_dumps, py_str = sample_str\<rparr>"

section \<open>Vocabulary of the properties\<close>

subsection \<open>Tools\<close>

text \<open>The actions each tool matches, in the order of its \<^verbatim>\<open>case\<close> arms.\<close>

definition playback_actions :: "string list" where
  "playback_actions = [''get'', ''start'', ''pause'', ''skip'']"

definition queue_actions :: "string list" where
  "queue_actions = [''add'', ''get'']"

definition playlist_actions :: "string list" where
  "playlist_actions = [''get'', ''get_tracks'', ''add_tracks'', ''remove_tracks'', ''change_details'']"

text \<open>A backend on which every call succeeds and returns \<^verbatim>\<open>None\<close>, and one on which every call raises.\<close>

definition idle_backend :: backend where
  "idle_backend c = Inr PNone"

definition failing_backend :: "string \<Rightarrow> backend" where
  "failing_backend msg c = Inl (PyExc OtherException msg)"

definition is_array :: "pyval \<Rightarrow> bool" where
  "is_array v = (case v of PList _ \<Rightarrow> True | _ \<Rightarrow> False)"

text \<open>
  A tool result handles the faults of the backend: the tool returned a text, and when a
  backend call it made raised, the text is \<^verbatim>\<open>Error: \<close> followed by the exception's message.
\<close>

definition handles_faults :: "backend \<Rightarrow> tool_result \<Rightarrow> bool" where
  "handles_faults spotify_client r =
     ((\<exists>s. fst r = Inr s) \<and>
      (\<forall>c e. c \<in> set (snd r) \<longrightarrow> spotify_client c = Inl e \<longrightarrow> fst r = Inr (''Error: '' @ exc_str e)))"

subsection \<open>Runs of the orchestration loop\<close>

datatype kind = KList | KGenerate | KDispatch

fun event_kind :: "event \<Rightarrow> kind" where
  "event_kind (ListTools _) = KList"
| "event_kind (Completion _ _ _) = KGenerate"
| "event_kind (CallTool _ _ _) = KDispatch"

text \<open>The exception an interaction raised, if it did.\<close>

fun raised_by :: "event \<Rightarrow> py_exc option" where
  "raised_by (ListTools r) = (case r of Inl e \<Rightarrow> Some e | Inr _ \<Rightarrow> None)"
| "raised_by (Completion _ _ r) = (case r of Inl e \<Rightarrow> Some e | Inr _ \<Rightarrow> None)"
| "raised_by (CallTool _ _ r) = (case r of Inl e \<Rightarrow> Some e | Inr _ \<Rightarrow> None)"

definition no_failure :: "event list \<Rightarrow> bool" where
  "no_failure tr = list_all (\<lambda>ev. raised_by ev = None) tr"

text \<open>The tool calls of a run, in order: name and decoded arguments.\<close>

fun call_of :: "event \<Rightarrow> (string \<times> pyval) list" where
  "call_of (CallTool n a _) = [(n, a)]"
| "call_of _ = []"

definition dispatched :: "event list \<Rightarrow> (string \<times> pyval) list" where
  "dispatched tr = concat (map call_of tr)"

text \<open>The results of the tool calls that returned, in order.\<close>

fun result_of :: "event \<Rightarrow> content_item list list" where
  "result_of (CallTool _ _ (Inr r)) = [r]"
| "result_of _ = []"

definition results :: "event list \<Rightarrow> content_item list list" where
  "results tr = concat (map result_of tr)"

text \<open>The conversation sent with the last completion request of a run.\<close>

fun conversation_of :: "event \<Rightarrow> message list list" where
  "conversation_of (Completion msgs _ _) = [msgs]"
| "conversation_of _ = []"

definition last_conversation :: "event list \<Rightarrow> message list" where
  "last_conversation tr =
     (case rev (concat (map conversation_of tr)) of [] \<Rightarrow> [] | msgs # _ \<Rightarrow> msgs)"

text \<open>The choices of the first response: the answer to the second interaction of a run.\<close>

definition first_choices :: "event list \<Rightarrow> llm_message list" where
  "first_choices tr =
     (case tr of
        _ # Completion _ _ (Inr choices) # _ \<Rightarrow> choices
      | _ \<Rightarrow> [])"

text \<open>All tool calls of a response in the order listed, and for each call the message that lists it.\<close>

definition all_calls :: "llm_message list \<Rightarrow> tool_call list" where
  "all_calls choices = concat (map calls_of choices)"

definition owners :: "llm_message list \<Rightarrow> llm_message list" where
  "owners choices = concat (map (\<lambda>m. replicate (length (calls_of m)) m) choices)"

text \<open>The two turns appended for a tool call of message \<open>m\<close> with result \<open>r\<close>.\<close>

definition turns :: "llm_message \<times> content_item list \<Rightarrow> message list" where
  "turns mr = [(''assistant'', content_or_empty (fst mr)), (''user'', response_text (snd mr))]"

text \<open>
  The requests a run sent to the completion service, in order: the conversation and the
  tool manifest of each (\<open>None\<close> when the call passes no \<^verbatim>\<open>tools\<close>).
\<close>

fun request_of :: "event \<Rightarrow> (message list \<times> tool_descr list option) list" where
  "request_of (Completion msgs tools _) = [(msgs, tools)]"
| "request_of _ = []"

definition requests :: "event list \<Rightarrow> (message list \<times> tool_descr list option) list" where
  "requests tr = concat (map request_of tr)"

text \<open>
  The follow-up requests for a conversation \<open>conv\<close> and the tool calls that returned, each
  given by the message that lists it and its result: after every call the conversation
  grows by the two turns of that call and is sent at once, without a tool manifest.
\<close>

fun follow_ups ::
  "message list \<Rightarrow> (llm_message \<times> content_item list) list
     \<Rightarrow> (message list \<times> tool_descr list option) list" where
  "follow_ups conv [] = []"
| "follow_ups conv (mr # mrs) = (conv @ turns mr, None) # follow_ups (conv @ turns mr) mrs"

text \<open>
  The answer recorded with an interaction is the collaborator's answer to that request
  after the interactions \<open>h\<close> before it; \<open>answers_from\<close> says so of every interaction of
  a run that continues \<open>h\<close>.
\<close>

fun answered_by :: "client_env \<Rightarrow> event list \<Rightarrow> event \<Rightarrow> bool" where
  "answered_by env h (ListTools r) = (r = list_tools env h)"
| "answered_by env h (Completion msgs tools r) = (r = completion env h msgs tools)"
| "answered_by env h (CallTool n a r) = (r = call_tool env h n a)"

fun answers_from :: "client_env \<Rightarrow> event list \<Rightarrow> event list \<Rightarrow> bool" where
  "answers_from env h [] = True"
| "answers_from env h (ev # evs) = (answered_by env h ev \<and> answers_from env (h @ [ev]) evs)"

text \<open>The run reaches the \<^verbatim>\<open>return\<close> of line 197: nothing raised.\<close>

definition returns_normally :: "pylib \<Rightarrow> client_env \<Rightarrow> string \<Rightarrow> bool" where
  "returns_normally lib env query =
     (case list_tools env [] of
        Inl _ \<Rightarrow> False
      | Inr available_tools \<Rightarrow>
          (case process_query_try lib env [(''user'', query)] available_tools
                  [ListTools (Inr available_tools)] of
             Inl _ \<Rightarrow> False
           | Inr _ \<Rightarrow> True))"

text \<open>
  The interactions that follow the first response in a run that raised \<open>e\<close>: nothing
  failed before the last of them, and the last one raised \<open>e\<close>, unless no interaction
  raised at all (the exception came from \<^verbatim>\<open>json.loads\<close>).
\<close>

definition failure_shape :: "py_exc \<Rightarrow> event list \<Rightarrow> bool" where
  "failure_shape e evs =
     (no_failure evs \<or> (\<exists>evs' ev. evs = evs' @ [ev] \<and> no_failure evs' \<and> raised_by ev = Some e))"

text \<open>
  The lines an interaction contributes to the answer: a tool call its marker line, a
  follow-up completion the free text of its first choice.
\<close>

fun event_lines :: "pylib \<Rightarrow> event \<Rightarrow> string list" where
  "event_lines lib (CallTool n a _) = [calling_line lib n a]"
| "event_lines lib (Completion _ None (Inr choices)) = first_choice_lines choices"
| "event_lines lib _ = []"

text \<open>
  The lines of the answer, read off the first response and the interactions that
  followed it: for each choice its free text, then the lines of the two interactions
  per tool call of that choice.
\<close>

fun answer_lines :: "pylib \<Rightarrow> llm_message list \<Rightarrow> event list \<Rightarrow> string list" where
  "answer_lines lib [] evs = []"
| "answer_lines lib (m # ms) evs =
     content_lines m
     @ concat (map (event_lines lib) (take (2 * length (calls_of m)) evs))
     @ answer_lines lib ms (drop (2 * length (calls_of m)) evs)"

subsection \<open>The loop as the specification words it\<close>

text \<open>
  The specification's final answer: the concatenation, in turn order, of all free text
  the completion service produced during the run.
\<close>

fun texts_of :: "event \<Rightarrow> string list" where
  "texts_of (Completion _ _ (Inr choices)) = concat (map content_lines choices)"
| "texts_of _ = []"

definition free_texts :: "event list \<Rightarrow> string list" where
  "free_texts tr = concat (map texts_of tr)"

definition spec_final_answer :: "event list \<Rightarrow> string" where
  "spec_final_answer tr = concat (free_texts tr)"

text \<open>
  The specification's round with \<open>k\<close> tool calls: one Generate, the \<open>k\<close> dispatches, and
  only then the next Generate.
\<close>

definition spec_round_kinds :: "nat \<Rightarrow> kind list" where
  "spec_round_kinds k = [KList, KGenerate] @ replicate k KDispatch @ [KGenerate]"

text \<open>
  The specification's handling of a failed tool call: the run goes on, so a completion
  request follows every tool call that raised.
\<close>

fun continues_after_failure :: "event list \<Rightarrow> bool" where
  "continues_after_failure [] = True"
| "continues_after_failure (ev # evs) =
     ((case ev of
         CallTool _ _ (Inl _) \<Rightarrow> list_ex (\<lambda>ev'. event_kind ev' = KGenerate) evs
       | _ \<Rightarrow> True)
      \<and> continues_after_failure evs)"

subsection \<open>Collaborators for concrete runs\<close>

definition pause_call :: tool_call where
  "pause_call = \<lparr>tc_name = ''playback'', tc_arguments = ''{\"action\": \"pause\"}''\<rparr>"

definition queue_call :: tool_call where
  "queue_call = \<lparr>tc_name = ''queue'', tc_arguments = ''{\"action\": \"get\"}''\<rparr>"

text \<open>
  A completion service that asks for two tool calls in its first response and answers
  every follow-up with a text, and a session whose tools return a text.
\<close>

definition scripted_env :: client_env where
  "scripted_env =
     \<lparr>list_tools = (\<lambda>tr. Inr []),
      completion = (\<lambda>tr msgs tools.
         case tools of
           Some _ \<Rightarrow> Inr [\<lparr>msg_content = Some ''On it.'', msg_tool_calls = Some [pause_call, queue_call]\<rparr>]
         | None \<Rightarrow> Inr [\<lparr>msg_content = Some ''Done.'', msg_tool_calls = None\<rparr>]),
      call_tool = (\<lambda>tr name args. Inr [TextContent ''ok''])\<rparr>"

text \<open>The same service, with a session whose tool calls time out.\<close>

definition timeout_env :: client_env where
  "timeout_env =
     scripted_env\<lparr>call_tool := (\<lambda>tr name args. Inl (PyExc OtherException ''Timed out''))\<rparr>"

section \<open>Properties of the tool server\<close>

lemma except_Exception_simps:
  "except_Exception (Inl e, t) = (Inr (''Error: '' @ exc_str e), t)"
  "except_Exception (Inr s, t) = (Inr s, t)"
  by (simp_all add: except_Exception_def)

lemma call_then_snd: "snd (call_then bk c t) = [c]"
  by (simp add: call_then_def split: sum.splits)

lemma except_snd: "snd (except_Exception r) = snd r"
  by (simp add: except_Exception_def split: sum.splits)

lemma except_call_then:
  "except_Exception (call_then bk c t) =
     (case bk c of Inl e \<Rightarrow> (Inr (''Error: '' @ exc_str e), [c]) | Inr _ \<Rightarrow> (Inr t, [c]))"
  by (simp add: call_then_def except_Exception_def split: sum.splits)

lemma decode_str:
  "decode_track_ids lib (PStr s) =
     (case json_loads lib s of Inr v \<Rightarrow> Decoded v
      | Inl e \<Rightarrow> if exc_cls e = JSONDecodeError then NotJson else Raised e)"
  by (simp add: decode_track_ids_def)

lemma sample_loads_123: "sample_loads ''[1,2,3]'' = Inr (PList [PInt 1, PInt 2, PInt 3])"
  by code_simp

lemma sample_loads_not_json:
  "sample_loads ''not-json'' = Inl (PyExc JSONDecodeError ''Expecting value'')"
  by code_simp

lemma sample_loads_int: "sample_loads ''123'' = Inr (PInt 123)"
  by code_simp

lemma sample_loads_str: "sample_loads ''\"abc\"'' = Inr (PStr ''abc'')"
  by code_simp

subsection \<open>Required arguments\<close>

text \<open>
  Claim C1. When a required argument of a tool action is missing, the tool returns a text
  that names the missing argument or arguments and makes no backend call: \<^verbatim>\<open>queue\<close>
  with action \<^verbatim>\<open>add\<close> and no \<^verbatim>\<open>track_id\<close>; \<^verbatim>\<open>playlist\<close> with action
  \<^verbatim>\<open>get_tracks\<close>, \<^verbatim>\<open>add_tracks\<close>, \<^verbatim>\<open>remove_tracks\<close> or \<^verbatim>\<open>change_details\<close> and no
  \<^verbatim>\<open>playlist_id\<close>; \<^verbatim>\<open>add_tracks\<close> or \<^verbatim>\<open>remove_tracks\<close> and no \<^verbatim>\<open>track_ids\<close>. An
  argument is missing when the code's test \<^verbatim>\<open>not arg\<close> holds: it is \<^verbatim>\<open>None\<close> (left
  out) or empty. The second component of the result, the list of backend calls, is empty.
\<close>

theorem missing_required_argument:
  "(\<not> truthy_str track_id \<longrightarrow>
      queue lib bk ''add'' track_id = (Inr (''track_id'' @ '' is required for add action''), []))
   \<and> (\<not> truthy_str playlist_id \<longrightarrow>
      playlist lib bk ''get_tracks'' playlist_id track_ids name description =
        (Inr (''playlist_id'' @ '' is required for get_tracks action.''), []))
   \<and> (\<not> truthy_str playlist_id \<or> \<not> truthy track_ids \<longrightarrow>
      playlist lib bk ''add_tracks'' playlist_id track_ids name description =
        (Inr (''playlist_id'' @ '' and '' @ ''track_ids'' @ '' are required for add_tracks action.''), []))
   \<and> (\<not> truthy_str playlist_id \<or> \<not> truthy track_ids \<longrightarrow>
      playlist lib bk ''remove_tracks'' playlist_id track_ids name description =
        (Inr (''playlist_id'' @ '' and '' @ ''track_ids'' @ '' are required for remove_tracks action.''), []))
   \<and> (\<not> truthy_str playlist_id \<longrightarrow>
      playlist lib bk ''change_details'' playlist_id track_ids name description =
        (Inr (''playlist_id'' @ '' is required for change_details action.''), []))"
  by (cases track_id; cases playlist_id)
     (simp_all add: queue_def queue_try_def playlist_def playlist_try_def except_Exception_simps)

theorem missing_required_argument_witness:
  "queue sample_lib idle_backend ''add'' None = (Inr ''track_id is required for add action'', [])
   \<and> playlist sample_lib idle_backend ''get_tracks'' None PNone None None =
       (Inr ''playlist_id is required for get_tracks action.'', [])
   \<and> playlist sample_lib idle_backend ''add_tracks'' (Some ''p1'') PNone None None =
       (Inr ''playlist_id and track_ids are required for add_tracks action.'', [])
   \<and> playlist sample_lib idle_backend ''remove_tracks'' None (PStr ''[1]'') None None =
       (Inr ''playlist_id and track_ids are required for remove_tracks action.'', [])
   \<and> playlist sample_lib idle_backend ''change_details'' None PNone (Some ''Mix'') None =
       (Inr ''playlist_id is required for change_details action.'', [])"
  using missing_required_argument [of None sample_lib idle_backend None PNone None None]
    missing_required_argument [of None sample_lib idle_backend "Some ''p1''" PNone None None]
    missing_required_argument [of None sample_lib idle_backend None "PStr ''[1]''" None None]
    missing_required_argument [of None sample_lib idle_backend None PNone "Some ''Mix''" None]
  by simp

subsection \<open>Decoding of track\_ids\<close>

text \<open>
  Claim C2. For \<^verbatim>\<open>playlist\<close> with action \<^verbatim>\<open>add_tracks\<close>, and likewise
  \<^verbatim>\<open>remove_tracks\<close>, a \<^verbatim>\<open>track_ids\<close> given as a string is JSON-decoded before it is
  forwarded: the backend call carries the decoded value (for \<^verbatim>\<open>"[1,2,3]"\<close> the array,
  see the witness). When the string is not valid JSON (\<^verbatim>\<open>json.loads\<close> raises
  JSONDecodeError, as for \<^verbatim>\<open>"not-json"\<close>) the tool returns the decode-error text
  and makes no backend call; nothing is forwarded, in particular no empty list. The call
  is one that passes the required-argument test of C1: \<^verbatim>\<open>playlist_id\<close> and
  \<^verbatim>\<open>track_ids\<close> are present and not empty.
\<close>

theorem track_ids_decoded:
  assumes "p \<noteq> []" and "s \<noteq> []"
  shows "(\<forall>v. json_loads lib s = Inr v \<longrightarrow>
            snd (playlist lib bk ''add_tracks'' (Some p) (PStr s) name description)
              = [AddTracksToPlaylist p v]
          \<and> snd (playlist lib bk ''remove_tracks'' (Some p) (PStr s) name description)
              = [RemoveTracksFromPlaylist p v])
       \<and> (\<forall>e. json_loads lib s = Inl e \<and> exc_cls e = JSONDecodeError \<longrightarrow>
            playlist lib bk ''add_tracks'' (Some p) (PStr s) name description
              = (Inr ''Error: track_ids must be a valid JSON array.'', [])
          \<and> playlist lib bk ''remove_tracks'' (Some p) (PStr s) name description
              = (Inr ''Error: track_ids must be a valid JSON array.'', []))"
  using assms
  by (simp add: playlist_def playlist_try_def decode_str except_snd call_then_snd
      except_Exception_simps)

theorem track_ids_decoded_witness:
  "snd (playlist sample_lib idle_backend ''add_tracks'' (Some ''p1'') (PStr ''[1,2,3]'') None None)
     = [AddTracksToPlaylist ''p1'' (PList [PInt 1, PInt 2, PInt 3])]
   \<and> playlist sample_lib idle_backend ''add_tracks'' (Some ''p1'') (PStr ''not-json'') None None
     = (Inr ''Error: track_ids must be a valid JSON array.'', [])
   \<and> playlist sample_lib idle_backend ''remove_tracks'' (Some ''p1'') (PStr ''not-json'') None None
     = (Inr ''Error: track_ids must be a valid JSON array.'', [])"
  using track_ids_decoded [of "''p1''" "''[1,2,3]''" sample_lib idle_backend None None]
    track_ids_decoded [of "''p1''" "''not-json''" sample_lib idle_backend None None]
  by (simp add: sample_lib_def sample_loads_123 sample_loads_not_json)

text \<open>
  Claim C10. The validation of \<^verbatim>\<open>track_ids\<close> tests only that the string decodes, not
  that the decoded value is an array: when the string is valid JSON and the value is not
  an array (as for \<^verbatim>\<open>"123"\<close> and \<^verbatim>\<open>"\"abc\""\<close>), the value is forwarded to the backend
  call, and the tool reports success when the backend accepts it.
\<close>

theorem non_array_forwarded:
  assumes "p \<noteq> []" and "s \<noteq> []" and "json_loads lib s = Inr v" and "\<not> is_array v"
  shows "snd (playlist lib bk ''add_tracks'' (Some p) (PStr s) name description)
           = [AddTracksToPlaylist p v]
       \<and> snd (playlist lib bk ''remove_tracks'' (Some p) (PStr s) name description)
           = [RemoveTracksFromPlaylist p v]
       \<and> (\<forall>r. bk (AddTracksToPlaylist p v) = Inr r \<longrightarrow>
            fst (playlist lib bk ''add_tracks'' (Some p) (PStr s) name description)
              = Inr ''Tracks added to playlist.'')
       \<and> (\<forall>r. bk (RemoveTracksFromPlaylist p v) = Inr r \<longrightarrow>
            fst (playlist lib bk ''remove_tracks'' (Some p) (PStr s) name description)
              = Inr ''Tracks removed from playlist.'')"
  using assms
  by (simp add: playlist_def playlist_try_def decode_str except_call_then split: sum.splits)

theorem non_array_forwarded_witness:
  "playlist sample_lib idle_backend ''add_tracks'' (Some ''p1'') (PStr ''123'') None None
     = (Inr ''Tracks added to playlist.'', [AddTracksToPlaylist ''p1'' (PInt 123)])
   \<and> playlist sample_lib idle_backend ''remove_tracks'' (Some ''p1'')
        (PStr ''\"abc\"'') None None
     = (Inr ''Tracks removed from playlist.'', [RemoveTracksFromPlaylist ''p1'' (PStr ''abc'')])"
proof -
  have a: "json_loads sample_lib ''123'' = Inr (PInt 123)"
    by (simp add: sample_lib_def sample_loads_int)
  have b: "json_loads sample_lib ''\"abc\"'' = Inr (PStr ''abc'')"
    by (simp add: sample_lib_def sample_loads_str)
  have p: "''p1'' \<noteq> []" and s1: "''123'' \<noteq> []" and s2: "''\"abc\"'' \<noteq> []"
    by simp_all
  have n1: "\<not> is_array (PInt 123)" and n2: "\<not> is_array (PStr ''abc'')"
    by (simp_all add: is_array_def)
  have i: "\<And>c. idle_backend c = Inr PNone"
    by (simp add: idle_backend_def)
  from non_array_forwarded [OF p s1 a n1, of idle_backend None None]
    non_array_forwarded [OF p s2 b n2, of idle_backend None None]
  show ?thesis
    by (simp only: prod_eq_iff i) simp
qed

subsection \<open>No exception leaves a tool\<close>

lemma handles_faults_call_then:
  "handles_faults bk (except_Exception (call_then bk c t))"
  by (simp add: handles_faults_def except_call_then split: sum.splits)

lemma handles_faults_call_dumps:
  "handles_faults bk (except_Exception (call_dumps lib bk c))"
  by (simp add: handles_faults_def call_dumps_def except_Exception_def split: sum.splits)

lemma handles_faults_text:
  "handles_faults bk (except_Exception (Inr s, []))"
  by (simp add: handles_faults_def except_Exception_def)

lemma handles_faults_raise_early:
  "handles_faults bk (except_Exception (Inl e, []))"
  by (simp add: handles_faults_def except_Exception_def)

lemma playback_handles: "handles_faults bk (playback lib bk action spotify_uri num_skips)"
proof (cases "action = ''get''")
  case True
  then show ?thesis
    by (simp add: playback_def playback_try_def handles_faults_def except_Exception_def
        split: sum.splits)
next
  case False
  then show ?thesis
    by (simp add: playback_def playback_try_def handles_faults_call_then handles_faults_text)
qed

lemma search_handles: "handles_faults bk (search lib bk query qtype limit)"
  by (simp add: search_def search_try_def handles_faults_call_dumps)

lemma queue_handles: "handles_faults bk (queue lib bk action track_id)"
  by (simp add: queue_def queue_try_def handles_faults_call_then handles_faults_call_dumps
      handles_faults_text split: option.splits)

lemma get_info_handles: "handles_faults bk (get_info lib bk item_uri)"
  by (simp add: get_info_def get_info_try_def handles_faults_call_dumps)

lemma playlist_handles:
  "handles_faults bk (playlist lib bk action playlist_id track_ids name description)"
  by (simp add: playlist_def playlist_try_def handles_faults_call_then handles_faults_call_dumps
      handles_faults_text handles_faults_raise_early split: option.splits decoded.splits)

text \<open>
  Claim C3. Every tool (\<^verbatim>\<open>playback\<close>, \<^verbatim>\<open>search\<close>, \<^verbatim>\<open>queue\<close>, \<^verbatim>\<open>get_info\<close>,
  \<^verbatim>\<open>playlist\<close>), for every action and every combination of arguments, with any
  library and any backend, returns a text and lets no exception out; when the backend
  call it made raised an exception, the text is \<^verbatim>\<open>Error: \<close> followed by the message
  of that exception. Exceptions are instances of \<^verbatim>\<open>Exception\<close>, the class the
  handler of each tool names.
\<close>

theorem tools_handle_faults:
  "handles_faults bk (playback lib bk action spotify_uri num_skips)
   \<and> handles_faults bk (search lib bk query qtype limit)
   \<and> handles_faults bk (queue lib bk action track_id)
   \<and> handles_faults bk (get_info lib bk item_uri)
   \<and> handles_faults bk (playlist lib bk action playlist_id track_ids name description)"
  by (simp add: playback_handles search_handles queue_handles get_info_handles playlist_handles)

theorem tools_handle_faults_witness:
  "playback sample_lib (failing_backend ''The access token expired'') ''pause'' None (Some 1)
     = (Inr ''Error: The access token expired'', [PausePlayback])
   \<and> search sample_lib (failing_backend ''The access token expired'') ''Bohemian Rhapsody'' ''track'' 5
     = (Inr ''Error: The access token expired'', [Search ''Bohemian Rhapsody'' ''track'' 5])"
  using tools_handle_faults [of "failing_backend ''The access token expired''" sample_lib
      "''pause''" None "Some 1" "''Bohemian Rhapsody''" "''track''" 5 None "''uri''" None PNone None None]
  by (simp add: handles_faults_def failing_backend_def playback_def playback_try_def
      except_call_then search_def search_try_def call_dumps_def except_Exception_simps)

subsection \<open>Unknown actions\<close>

text \<open>
  Claim C7. A tool that takes an action (\<^verbatim>\<open>playback\<close>, \<^verbatim>\<open>queue\<close>, \<^verbatim>\<open>playlist\<close>),
  called with an action outside the ones it supports, returns as its normal result a
  text that lists all of its supported actions (playback: get, start, pause, skip; queue:
  add, get; playlist: get, get\_tracks, add\_tracks, remove\_tracks, change\_details), and
  makes no backend call.
\<close>

theorem unknown_action_lists_supported:
  "(action \<notin> set playback_actions \<longrightarrow>
      playback lib bk action spotify_uri num_skips =
        (Inr (''Unknown action: '' @ action @ ''. Supported actions are: ''
              @ join '', '' playback_actions @ ''.''), []))
   \<and> (action \<notin> set queue_actions \<longrightarrow>
      queue lib bk action track_id =
        (Inr (''Unknown queue action: '' @ action @ ''. Supported actions are: ''
              @ join '', '' queue_actions @ ''.''), []))
   \<and> (action \<notin> set playlist_actions \<longrightarrow>
      playlist lib bk action playlist_id track_ids name description =
        (Inr (''Unknown playlist action: '' @ action @ ''. Supported actions are: ''
              @ join '', '' playlist_actions @ ''.''), []))"
  by (simp add: playback_actions_def queue_actions_def playlist_actions_def
      playback_def playback_try_def queue_def queue_try_def playlist_def playlist_try_def
      except_Exception_simps)

theorem unknown_action_lists_supported_witness:
  "playback sample_lib idle_backend ''rewind'' None (Some 1) =
     (Inr ''Unknown action: rewind. Supported actions are: get, start, pause, skip.'', [])
   \<and> queue sample_lib idle_backend ''rewind'' None =
     (Inr ''Unknown queue action: rewind. Supported actions are: add, get.'', [])
   \<and> playlist sample_lib idle_backend ''rewind'' None PNone None None =
     (Inr ''Unknown playlist action: rewind. Supported actions are: get, get_tracks, add_tracks, remove_tracks, change_details.'', [])"
  using unknown_action_lists_supported
    [of "''rewind''" sample_lib idle_backend None "Some 1" None None PNone None None]
  by (simp add: playback_actions_def queue_actions_def playlist_actions_def)

subsection \<open>change\_details\<close>

text \<open>
  Claim C8. For \<^verbatim>\<open>playlist\<close> with action \<^verbatim>\<open>change_details\<close> and a present
  \<^verbatim>\<open>playlist_id\<close>: when at least one of \<^verbatim>\<open>name\<close> and \<^verbatim>\<open>description\<close> is supplied,
  the call reaches the backend's change-details operation (and returns its success text
  when the backend accepts it); the tool returns the validation text and makes no backend
  call exactly when both are absent. Supplied means what the code tests: the
  argument is neither \<^verbatim>\<open>None\<close> nor empty.
\<close>

theorem change_details_at_least_one:
  assumes "p \<noteq> []"
  shows "(truthy_str name \<or> truthy_str description \<longrightarrow>
            snd (playlist lib bk ''change_details'' (Some p) track_ids name description)
              = [ChangePlaylistDetails p name description]
          \<and> (\<forall>v. bk (ChangePlaylistDetails p name description) = Inr v \<longrightarrow>
                fst (playlist lib bk ''change_details'' (Some p) track_ids name description)
                  = Inr ''Playlist details changed.''))
       \<and> ((playlist lib bk ''change_details'' (Some p) track_ids name description
              = (Inr ''At least one of name or description is required.'', []))
            = (\<not> truthy_str name \<and> \<not> truthy_str description))"
  using assms
  by (auto simp add: playlist_def playlist_try_def except_call_then except_Exception_simps
      split: sum.splits)

theorem change_details_at_least_one_witness:
  "playlist sample_lib idle_backend ''change_details'' (Some ''p1'') PNone None (Some ''For the road'')
     = (Inr ''Playlist details changed.'', [ChangePlaylistDetails ''p1'' None (Some ''For the road'')])
   \<and> playlist sample_lib idle_backend ''change_details'' (Some ''p1'') PNone (Some ''Mix'') None
     = (Inr ''Playlist details changed.'', [ChangePlaylistDetails ''p1'' (Some ''Mix'') None])
   \<and> playlist sample_lib idle_backend ''change_details'' (Some ''p1'') PNone None None
     = (Inr ''At least one of name or description is required.'', [])"
proof -
  have p: "''p1'' \<noteq> []" by simp
  have i: "\<And>c. idle_backend c = Inr PNone"
    by (simp add: idle_backend_def)
  from change_details_at_least_one [OF p, of None "Some ''For the road''" sample_lib idle_backend PNone]
    change_details_at_least_one [OF p, of "Some ''Mix''" None sample_lib idle_backend PNone]
    change_details_at_least_one [OF p, of None None sample_lib idle_backend PNone]
  show ?thesis
    by (simp only: prod_eq_iff i) simp
qed

subsection \<open>No track playing\<close>

text \<open>
  Claim C9. For \<^verbatim>\<open>playback\<close> with action \<^verbatim>\<open>get\<close>, when the backend's
  \<^verbatim>\<open>get_current_track\<close> returns a falsy value, the tool returns exactly the plain text
  \<^verbatim>\<open>No track playing.\<close>, not a JSON payload and not an error.
\<close>

theorem playback_get_no_track:
  assumes "spotify_client GetCurrentTrack = Inr v" and "\<not> truthy v"
  shows "playback lib spotify_client ''get'' spotify_uri num_skips
           = (Inr ''No track playing.'', [GetCurrentTrack])"
  using assms
  by (simp add: playback_def playback_try_def except_Exception_simps)

theorem playback_get_no_track_witness:
  "playback sample_lib idle_backend ''get'' None (Some 1) = (Inr ''No track playing.'', [GetCurrentTrack])"
proof -
  have a: "idle_backend GetCurrentTrack = Inr PNone"
    by (simp add: idle_backend_def)
  have b: "\<not> truthy PNone" by simp
  from a b playback_get_no_track [of idle_backend PNone sample_lib None "Some 1"]
  show ?thesis by simp
qed

section \<open>Properties of the orchestration loop\<close>

subsection \<open>The loops over the tool calls and the choices\<close>

lemma dispatch_call_Inr:
  assumes "dispatch_call lib env m tc st = Inr st'"
  shows "\<exists>args r resp.
           json_loads lib (tc_arguments tc) = Inr args
         \<and> trace st' = trace st @ [CallTool (tc_name tc) args (Inr r), Completion (messages st') None (Inr resp)]
         \<and> messages st' = messages st @ turns (m, r)
         \<and> final_text st' = final_text st @ calling_line lib (tc_name tc) args # first_choice_lines resp"
  using assms
  by (auto simp add: dispatch_call_def Let_def turns_def split: sum.splits)

lemma dispatch_call_Inl:
  assumes "dispatch_call lib env m tc st = Inl (e, tr)"
  shows "tr = trace st
       \<or> (\<exists>ev. tr = trace st @ [ev] \<and> raised_by ev = Some e)
       \<or> (\<exists>ev ev'. tr = trace st @ [ev, ev'] \<and> raised_by ev = None \<and> raised_by ev' = Some e \<and> event_kind ev' = KGenerate)"
  using assms
  by (auto simp add: dispatch_call_def Let_def split: sum.splits)

lemma no_failure_append [simp]: "no_failure (xs @ ys) = (no_failure xs \<and> no_failure ys)"
  by (simp add: no_failure_def)

lemma dispatched_append [simp]: "dispatched (xs @ ys) = dispatched xs @ dispatched ys"
  by (simp add: dispatched_def)

lemma results_append [simp]: "results (xs @ ys) = results xs @ results ys"
  by (simp add: results_def)

lemma last_conversation_snoc [simp]:
  "last_conversation (xs @ [Completion msgs t r]) = msgs"
  by (simp add: last_conversation_def)

lemma turns_replicate:
  "length rs = k \<Longrightarrow> concat (map turns (zip (replicate k m) rs)) = concat (map (\<lambda>r. turns (m, r)) rs)"
  by (induction rs arbitrary: k) auto

lemma dispatch_calls_Inr:
  assumes "dispatch_calls lib env m tcs st = Inr st'"
  shows "\<exists>evs. trace st' = trace st @ evs
         \<and> map event_kind evs = concat (replicate (length tcs) [KDispatch, KGenerate])
         \<and> no_failure evs
         \<and> map fst (dispatched evs) = map tc_name tcs
         \<and> map (Inr \<circ> snd) (dispatched evs) = map (json_loads lib \<circ> tc_arguments) tcs
         \<and> length (results evs) = length tcs
         \<and> messages st' = messages st @ concat (map (\<lambda>r. turns (m, r)) (results evs))
         \<and> final_text st' = final_text st @ concat (map (event_lines lib) evs)
         \<and> (tcs \<noteq> [] \<longrightarrow> last_conversation (trace st') = messages st')"
  using assms
proof (induction tcs arbitrary: st)
  case Nil
  then show ?case by (simp add: no_failure_def dispatched_def results_def)
next
  case (Cons tc tcs)
  from Cons.prems obtain st1 where
    s1: "dispatch_call lib env m tc st = Inr st1" and
    s2: "dispatch_calls lib env m tcs st1 = Inr st'"
    by (auto split: sum.splits)
  from dispatch_call_Inr [OF s1] obtain args r resp where
    a: "json_loads lib (tc_arguments tc) = Inr args" and
    t: "trace st1 = trace st @ [CallTool (tc_name tc) args (Inr r), Completion (messages st1) None (Inr resp)]" and
    m: "messages st1 = messages st @ turns (m, r)" and
    f: "final_text st1 = final_text st @ calling_line lib (tc_name tc) args # first_choice_lines resp"
    by blast
  from Cons.IH [OF s2] obtain evs where
    e: "trace st' = trace st1 @ evs"
      "map event_kind evs = concat (replicate (length tcs) [KDispatch, KGenerate])"
      "no_failure evs"
      "map fst (dispatched evs) = map tc_name tcs"
      "map (Inr \<circ> snd) (dispatched evs) = map (json_loads lib \<circ> tc_arguments) tcs"
      "length (results evs) = length tcs"
      "messages st' = messages st1 @ concat (map (\<lambda>r. turns (m, r)) (results evs))"
      "final_text st' = final_text st1 @ concat (map (event_lines lib) evs)"
      "tcs \<noteq> [] \<longrightarrow> last_conversation (trace st') = messages st'"
    by blast
  let ?evs = "[CallTool (tc_name tc) args (Inr r), Completion (messages st1) None (Inr resp)] @ evs"
  have lc: "last_conversation (trace st') = messages st'"
  proof (cases "tcs = []")
    case True
    with s2 have "st' = st1" by simp
    moreover have "trace st1 = (trace st @ [CallTool (tc_name tc) args (Inr r)]) @ [Completion (messages st1) None (Inr resp)]"
      using t by simp
    ultimately show ?thesis by (simp only: last_conversation_snoc)
  next
    case False
    with e(9) show ?thesis by simp
  qed
  have "trace st' = trace st @ ?evs" using e(1) t by simp
  moreover have "map event_kind ?evs = concat (replicate (length (tc # tcs)) [KDispatch, KGenerate])"
    using e(2) by simp
  moreover have "no_failure ?evs" using e(3) by (simp add: no_failure_def)
  moreover have "map fst (dispatched ?evs) = map tc_name (tc # tcs)"
    using e(4) by (simp add: dispatched_def)
  moreover have "map (Inr \<circ> snd) (dispatched ?evs) = map (json_loads lib \<circ> tc_arguments) (tc # tcs)"
    using e(5) a by (simp add: dispatched_def)
  moreover have "length (results ?evs) = length (tc # tcs)"
    using e(6) by (simp add: results_def)
  moreover have "messages st' = messages st @ concat (map (\<lambda>r. turns (m, r)) (results ?evs))"
    using e(7) m by (simp add: results_def)
  moreover have "final_text st' = final_text st @ concat (map (event_lines lib) ?evs)"
    using e(8) f by simp
  ultimately show ?case using lc by blast
qed

lemma process_choice_Inr:
  assumes "process_choice lib env m st = Inr st'"
  shows "\<exists>evs. trace st' = trace st @ evs
         \<and> map event_kind evs = concat (replicate (length (calls_of m)) [KDispatch, KGenerate])
         \<and> no_failure evs
         \<and> map fst (dispatched evs) = map tc_name (calls_of m)
         \<and> map (Inr \<circ> snd) (dispatched evs) = map (json_loads lib \<circ> tc_arguments) (calls_of m)
         \<and> length (results evs) = length (calls_of m)
         \<and> messages st' = messages st @ concat (map (\<lambda>r. turns (m, r)) (results evs))
         \<and> final_text st' = final_text st @ content_lines m @ concat (map (event_lines lib) evs)
         \<and> (calls_of m \<noteq> [] \<longrightarrow> last_conversation (trace st') = messages st')"
  using dispatch_calls_Inr [OF assms [unfolded process_choice_def]]
  by simp

lemma kinds_length:
  "map event_kind evs = concat (replicate k [KDispatch, KGenerate]) \<Longrightarrow> length evs = 2 * k"
proof -
  assume a: "map event_kind evs = concat (replicate k [KDispatch, KGenerate])"
  have "length (concat (replicate k [KDispatch, KGenerate])) = 2 * k"
    by (induction k) simp_all
  with a show ?thesis by (metis length_map)
qed

lemma process_choices_Inr:
  assumes "process_choices lib env ms st = Inr st'"
  shows "\<exists>evs. trace st' = trace st @ evs
         \<and> map event_kind evs = concat (replicate (length (all_calls ms)) [KDispatch, KGenerate])
         \<and> no_failure evs
         \<and> map fst (dispatched evs) = map tc_name (all_calls ms)
         \<and> map (Inr \<circ> snd) (dispatched evs) = map (json_loads lib \<circ> tc_arguments) (all_calls ms)
         \<and> length (results evs) = length (all_calls ms)
         \<and> messages st' = messages st @ concat (map turns (zip (owners ms) (results evs)))
         \<and> final_text st' = final_text st @ answer_lines lib ms evs
         \<and> (all_calls ms \<noteq> [] \<longrightarrow> last_conversation (trace st') = messages st')
         \<and> (all_calls ms = [] \<longrightarrow> evs = [])"
  using assms
proof (induction ms arbitrary: st)
  case Nil
  then show ?case
    by (simp add: all_calls_def owners_def no_failure_def dispatched_def results_def)
next
  case (Cons m ms)
  from Cons.prems obtain st1 where
    s1: "process_choice lib env m st = Inr st1" and
    s2: "process_choices lib env ms st1 = Inr st'"
    by (auto split: sum.splits)
  from process_choice_Inr [OF s1] obtain evs1 where
    a: "trace st1 = trace st @ evs1"
      "map event_kind evs1 = concat (replicate (length (calls_of m)) [KDispatch, KGenerate])"
      "no_failure evs1"
      "map fst (dispatched evs1) = map tc_name (calls_of m)"
      "map (Inr \<circ> snd) (dispatched evs1) = map (json_loads lib \<circ> tc_arguments) (calls_of m)"
      "length (results evs1) = length (calls_of m)"
      "messages st1 = messages st @ concat (map (\<lambda>r. turns (m, r)) (results evs1))"
      "final_text st1 = final_text st @ content_lines m @ concat (map (event_lines lib) evs1)"
      "calls_of m \<noteq> [] \<longrightarrow> last_conversation (trace st1) = messages st1"
    by blast
  from Cons.IH [OF s2] obtain evs2 where
    b: "trace st' = trace st1 @ evs2"
      "map event_kind evs2 = concat (replicate (length (all_calls ms)) [KDispatch, KGenerate])"
      "no_failure evs2"
      "map fst (dispatched evs2) = map tc_name (all_calls ms)"
      "map (Inr \<circ> snd) (dispatched evs2) = map (json_loads lib \<circ> tc_arguments) (all_calls ms)"
      "length (results evs2) = length (all_calls ms)"
      "messages st' = messages st1 @ concat (map turns (zip (owners ms) (results evs2)))"
      "final_text st' = final_text st1 @ answer_lines lib ms evs2"
      "all_calls ms \<noteq> [] \<longrightarrow> last_conversation (trace st') = messages st'"
      "all_calls ms = [] \<longrightarrow> evs2 = []"
    by blast
  have len1: "length evs1 = 2 * length (calls_of m)"
    using a(2) by (rule kinds_length)
  have ac: "all_calls (m # ms) = calls_of m @ all_calls ms"
    by (simp add: all_calls_def)
  have ow: "owners (m # ms) = replicate (length (calls_of m)) m @ owners ms"
    by (simp add: owners_def)
  have "trace st' = trace st @ (evs1 @ evs2)" using a(1) b(1) by simp
  moreover have "map event_kind (evs1 @ evs2)
      = concat (replicate (length (all_calls (m # ms))) [KDispatch, KGenerate])"
    using a(2) b(2) by (simp add: ac replicate_add)
  moreover have "no_failure (evs1 @ evs2)" using a(3) b(3) by simp
  moreover have "map fst (dispatched (evs1 @ evs2)) = map tc_name (all_calls (m # ms))"
    using a(4) b(4) by (simp add: ac)
  moreover have "map (Inr \<circ> snd) (dispatched (evs1 @ evs2))
      = map (json_loads lib \<circ> tc_arguments) (all_calls (m # ms))"
    using a(5) b(5) by (simp add: ac)
  moreover have "length (results (evs1 @ evs2)) = length (all_calls (m # ms))"
    using a(6) b(6) by (simp add: ac)
  moreover have "messages st' = messages st
      @ concat (map turns (zip (owners (m # ms)) (results (evs1 @ evs2))))"
    using a(7) b(7) a(6) by (simp add: ow turns_replicate)
  moreover have "final_text st' = final_text st @ answer_lines lib (m # ms) (evs1 @ evs2)"
    using a(8) b(8) len1 by simp
  moreover have "all_calls (m # ms) \<noteq> [] \<longrightarrow> last_conversation (trace st') = messages st'"
  proof (cases "all_calls ms = []")
    case True
    with b(10) b(1) b(7) b(6) have "trace st' = trace st1" "messages st' = messages st1"
      by simp_all
    with a(9) True show ?thesis by (simp add: ac)
  next
    case False
    with b(9) show ?thesis by simp
  qed
  moreover have "all_calls (m # ms) = [] \<longrightarrow> evs1 @ evs2 = []"
    using len1 b(10) by (auto simp add: ac)
  ultimately show ?case by blast
qed

lemma failure_shape_prepend:
  "no_failure evs1 \<Longrightarrow> failure_shape e evs2 \<Longrightarrow> failure_shape e (evs1 @ evs2)"
  unfolding failure_shape_def
  by (metis append_assoc no_failure_append)

lemma dispatch_call_Inl_shape:
  assumes "dispatch_call lib env m tc st = Inl (e, tr)"
  shows "\<exists>evs. tr = trace st @ evs \<and> failure_shape e evs"
proof -
  from dispatch_call_Inl [OF assms] consider
    "tr = trace st"
    | ev where "tr = trace st @ [ev]" "raised_by ev = Some e"
    | ev ev' where "tr = trace st @ [ev, ev']" "raised_by ev = None" "raised_by ev' = Some e"
    by blast
  then show ?thesis
  proof cases
    case 1
    then show ?thesis by (simp add: failure_shape_def no_failure_def)
  next
    case 2
    have "[ev] = [] @ [ev]" and "no_failure []"
      by (simp_all add: no_failure_def)
    with 2(2) have "failure_shape e [ev]"
      unfolding failure_shape_def by blast
    with 2(1) show ?thesis by blast
  next
    case 3
    have "[ev, ev'] = [ev] @ [ev']" by simp
    moreover have "no_failure [ev]" using 3(2) by (simp add: no_failure_def)
    ultimately have "failure_shape e [ev, ev']"
      unfolding failure_shape_def using 3(3) by blast
    with 3(1) show ?thesis by blast
  qed
qed

lemma dispatch_calls_Inl:
  assumes "dispatch_calls lib env m tcs st = Inl (e, tr)"
  shows "\<exists>evs. tr = trace st @ evs \<and> failure_shape e evs"
  using assms
proof (induction tcs arbitrary: st)
  case Nil
  then show ?case by simp
next
  case (Cons tc tcs)
  show ?case
  proof (cases "dispatch_call lib env m tc st")
    case (Inl x)
    with Cons.prems have "dispatch_call lib env m tc st = Inl (e, tr)" by simp
    then show ?thesis by (rule dispatch_call_Inl_shape)
  next
    case (Inr st1)
    with Cons.prems have r: "dispatch_calls lib env m tcs st1 = Inl (e, tr)" by simp
    from dispatch_calls_Inr [of lib env m "[tc]" st st1] Inr
    obtain evs1 where e1: "trace st1 = trace st @ evs1" "no_failure evs1"
      by auto
    from Cons.IH [OF r] obtain evs2 where e2: "tr = trace st1 @ evs2" "failure_shape e evs2"
      by blast
    from e1 e2 have "tr = trace st @ (evs1 @ evs2)" by simp
    moreover from e1(2) e2(2) have "failure_shape e (evs1 @ evs2)"
      by (rule failure_shape_prepend)
    ultimately show ?thesis by blast
  qed
qed

lemma process_choices_Inl:
  assumes "process_choices lib env ms st = Inl (e, tr)"
  shows "\<exists>evs. tr = trace st @ evs \<and> failure_shape e evs"
  using assms
proof (induction ms arbitrary: st)
  case Nil
  then show ?case by simp
next
  case (Cons m ms)
  show ?case
  proof (cases "process_choice lib env m st")
    case (Inl x)
    with Cons.prems have "process_choice lib env m st = Inl (e, tr)" by simp
    from dispatch_calls_Inl [OF this [unfolded process_choice_def]]
    show ?thesis by simp
  next
    case (Inr st1)
    with Cons.prems have r: "process_choices lib env ms st1 = Inl (e, tr)" by simp
    from process_choice_Inr [OF Inr]
    obtain evs1 where e1: "trace st1 = trace st @ evs1" "no_failure evs1"
      by blast
    from Cons.IH [OF r] obtain evs2 where e2: "tr = trace st1 @ evs2" "failure_shape e evs2"
      by blast
    from e1 e2 have "tr = trace st @ (evs1 @ evs2)" by simp
    moreover from e1(2) e2(2) have "failure_shape e (evs1 @ evs2)"
      by (rule failure_shape_prepend)
    ultimately show ?thesis by blast
  qed
qed

lemma requests_append [simp]: "requests (xs @ ys) = requests xs @ requests ys"
  by (simp add: requests_def)

lemma follow_ups_append:
  "follow_ups conv (xs @ ys) = follow_ups conv xs @ follow_ups (conv @ concat (map turns xs)) ys"
  by (induction xs arbitrary: conv) simp_all

lemma answers_from_append [simp]:
  "answers_from env h (xs @ ys) = (answers_from env h xs \<and> answers_from env (h @ xs) ys)"
  by (induction xs arbitrary: h) simp_all

lemma dispatch_call_events:
  assumes "dispatch_call lib env m tc st = Inr st'"
  shows "\<exists>args r resp.
           trace st' = trace st @ [CallTool (tc_name tc) args (Inr r),
                                   Completion (messages st @ turns (m, r)) None (Inr resp)]
         \<and> messages st' = messages st @ turns (m, r)
         \<and> call_tool env (trace st) (tc_name tc) args = Inr r
         \<and> completion env (trace st @ [CallTool (tc_name tc) args (Inr r)])
               (messages st @ turns (m, r)) None = Inr resp"
  using assms
  by (auto simp add: dispatch_call_def Let_def turns_def split: sum.splits)

lemma dispatch_call_step:
  assumes "dispatch_call lib env m tc st = Inr st'"
  shows "\<exists>evs r. trace st' = trace st @ evs
         \<and> results evs = [r]
         \<and> messages st' = messages st @ turns (m, r)
         \<and> requests evs = [(messages st @ turns (m, r), None)]
         \<and> answers_from env (trace st) evs"
proof -
  from dispatch_call_events [OF assms] obtain args r resp where
    e: "trace st' = trace st @ [CallTool (tc_name tc) args (Inr r),
                                Completion (messages st @ turns (m, r)) None (Inr resp)]"
      "messages st' = messages st @ turns (m, r)"
      "call_tool env (trace st) (tc_name tc) args = Inr r"
      "completion env (trace st @ [CallTool (tc_name tc) args (Inr r)])
         (messages st @ turns (m, r)) None = Inr resp"
    by blast
  let ?evs = "[CallTool (tc_name tc) args (Inr r),
               Completion (messages st @ turns (m, r)) None (Inr resp)]"
  have "results ?evs = [r]" by (simp add: results_def)
  moreover have "requests ?evs = [(messages st @ turns (m, r), None)]"
    by (simp add: requests_def)
  moreover have "answers_from env (trace st) ?evs"
    using e(3) e(4) by simp
  ultimately show ?thesis using e(1) e(2) by blast
qed

lemma dispatch_calls_step:
  assumes "dispatch_calls lib env m tcs st = Inr st'"
  shows "\<exists>evs. trace st' = trace st @ evs
         \<and> length (results evs) = length tcs
         \<and> messages st' = messages st @ concat (map turns (zip (replicate (length tcs) m) (results evs)))
         \<and> requests evs = follow_ups (messages st) (zip (replicate (length tcs) m) (results evs))
         \<and> answers_from env (trace st) evs"
  using assms
proof (induction tcs arbitrary: st)
  case Nil
  then show ?case by (simp add: results_def requests_def)
next
  case (Cons tc tcs)
  from Cons.prems obtain st1 where
    s1: "dispatch_call lib env m tc st = Inr st1" and
    s2: "dispatch_calls lib env m tcs st1 = Inr st'"
    by (auto split: sum.splits)
  from dispatch_call_step [OF s1] obtain evs1 r where
    a: "trace st1 = trace st @ evs1"
      "results evs1 = [r]"
      "messages st1 = messages st @ turns (m, r)"
      "requests evs1 = [(messages st @ turns (m, r), None)]"
      "answers_from env (trace st) evs1"
    by blast
  from Cons.IH [OF s2] obtain evs2 where
    b: "trace st' = trace st1 @ evs2"
      "length (results evs2) = length tcs"
      "messages st' = messages st1 @ concat (map turns (zip (replicate (length tcs) m) (results evs2)))"
      "requests evs2 = follow_ups (messages st1) (zip (replicate (length tcs) m) (results evs2))"
      "answers_from env (trace st1) evs2"
    by blast
  have z: "zip (replicate (length (tc # tcs)) m) (results (evs1 @ evs2))
      = (m, r) # zip (replicate (length tcs) m) (results evs2)"
    using a(2) by simp
  have "trace st' = trace st @ (evs1 @ evs2)" using a(1) b(1) by simp
  moreover have "length (results (evs1 @ evs2)) = length (tc # tcs)"
    using a(2) b(2) by simp
  moreover have "messages st' = messages st
      @ concat (map turns (zip (replicate (length (tc # tcs)) m) (results (evs1 @ evs2))))"
    using a(3) b(3) by (simp only: z) simp
  moreover have "requests (evs1 @ evs2)
      = follow_ups (messages st) (zip (replicate (length (tc # tcs)) m) (results (evs1 @ evs2)))"
    using a(3) a(4) b(4) by (simp only: z) simp
  moreover have "answers_from env (trace st) (evs1 @ evs2)"
    using a(1) a(5) b(5) by simp
  ultimately show ?case by blast
qed

lemma process_choices_step:
  assumes "process_choices lib env ms st = Inr st'"
  shows "\<exists>evs. trace st' = trace st @ evs
         \<and> length (results evs) = length (all_calls ms)
         \<and> messages st' = messages st @ concat (map turns (zip (owners ms) (results evs)))
         \<and> requests evs = follow_ups (messages st) (zip (owners ms) (results evs))
         \<and> answers_from env (trace st) evs"
  using assms
proof (induction ms arbitrary: st)
  case Nil
  then show ?case by (simp add: all_calls_def owners_def results_def requests_def)
next
  case (Cons m ms)
  from Cons.prems obtain st1 where
    s1: "process_choice lib env m st = Inr st1" and
    s2: "process_choices lib env ms st1 = Inr st'"
    by (auto split: sum.splits)
  let ?k = "length (calls_of m)"
  from dispatch_calls_step [OF s1 [unfolded process_choice_def]] obtain evs1 where
    a: "trace st1 = trace st @ evs1"
      "length (results evs1) = ?k"
      "messages st1 = messages st @ concat (map turns (zip (replicate ?k m) (results evs1)))"
      "requests evs1 = follow_ups (messages st) (zip (replicate ?k m) (results evs1))"
      "answers_from env (trace st) evs1"
    by auto
  from Cons.IH [OF s2] obtain evs2 where
    b: "trace st' = trace st1 @ evs2"
      "length (results evs2) = length (all_calls ms)"
      "messages st' = messages st1 @ concat (map turns (zip (owners ms) (results evs2)))"
      "requests evs2 = follow_ups (messages st1) (zip (owners ms) (results evs2))"
      "answers_from env (trace st1) evs2"
    by blast
  have ac: "all_calls (m # ms) = calls_of m @ all_calls ms"
    by (simp add: all_calls_def)
  have z: "zip (owners (m # ms)) (results (evs1 @ evs2))
      = zip (replicate ?k m) (results evs1) @ zip (owners ms) (results evs2)"
    using a(2) by (simp add: owners_def)
  have "trace st' = trace st @ (evs1 @ evs2)" using a(1) b(1) by simp
  moreover have "length (results (evs1 @ evs2)) = length (all_calls (m # ms))"
    using a(2) b(2) by (simp add: ac)
  moreover have "messages st' = messages st
      @ concat (map turns (zip (owners (m # ms)) (results (evs1 @ evs2))))"
    using a(3) b(3) by (simp only: z) simp
  moreover have "requests (evs1 @ evs2)
      = follow_ups (messages st) (zip (owners (m # ms)) (results (evs1 @ evs2)))"
    using a(3) a(4) b(4) by (simp only: z follow_ups_append requests_append)
  moreover have "answers_from env (trace st) (evs1 @ evs2)"
    using a(1) a(5) b(5) by simp
  ultimately show ?case by blast
qed

subsection \<open>The shapes of a run\<close>

text \<open>
  A run of \<^verbatim>\<open>process_query\<close> ends in one of four ways: the listing of the tools raised
  (outside the \<^verbatim>\<open>try\<close>, so the exception leaves the function), the first completion
  request raised, something raised in the loops, or the \<^verbatim>\<open>return\<close> of line 197 is
  reached.
\<close>

lemma run_cases:
  obtains
    (list_failed) e where "list_tools env [] = Inl e"
      "process_query lib env q = (Inl e, [ListTools (Inl e)])"
      "\<not> returns_normally lib env q"
  | (generate_failed) tools e where "list_tools env [] = Inr tools"
      "process_query lib env q =
         (Inr (''Error processing query: '' @ exc_str e),
          [ListTools (Inr tools), Completion [(''user'', q)] (Some tools) (Inl e)])"
      "\<not> returns_normally lib env q"
  | (raised) tools choices e evs where "list_tools env [] = Inr tools"
      "failure_shape e evs"
      "process_query lib env q =
         (Inr (''Error processing query: '' @ exc_str e),
          [ListTools (Inr tools), Completion [(''user'', q)] (Some tools) (Inr choices)] @ evs)"
      "\<not> returns_normally lib env q"
  | (returned) tools choices st where "list_tools env [] = Inr tools"
      "returns_normally lib env q"
      "process_choices lib env choices
         \<lparr>messages = [(''user'', q)], tool_results = [], final_text = [],
          trace = [ListTools (Inr tools), Completion [(''user'', q)] (Some tools) (Inr choices)]\<rparr>
        = Inr st"
      "process_query lib env q = (Inr (join [CHR 0x0A] (final_text st)), trace st)"
proof (cases "list_tools env []")
  case (Inl e)
  then have "process_query lib env q = (Inl e, [ListTools (Inl e)])"
    and "\<not> returns_normally lib env q"
    by (simp_all add: process_query_def returns_normally_def)
  with Inl show ?thesis by (rule list_failed)
next
  case (Inr tools)
  note lt = Inr
  show ?thesis
  proof (cases "completion env [ListTools (Inr tools)] [(''user'', q)] (Some tools)")
    case (Inl e)
    with lt have "process_query lib env q =
         (Inr (''Error processing query: '' @ exc_str e),
          [ListTools (Inr tools), Completion [(''user'', q)] (Some tools) (Inl e)])"
      and "\<not> returns_normally lib env q"
      by (simp_all add: process_query_def process_query_try_def returns_normally_def)
    with lt show ?thesis by (rule generate_failed)
  next
    case (Inr choices)
    note c = Inr
    let ?st0 = "\<lparr>messages = [(''user'', q)], tool_results = [], final_text = [],
          trace = [ListTools (Inr tools), Completion [(''user'', q)] (Some tools) (Inr choices)]\<rparr>"
    have t: "process_query_try lib env [(''user'', q)] tools [ListTools (Inr tools)]
        = process_choices lib env choices ?st0"
      using c by (simp add: process_query_try_def)
    show ?thesis
    proof (cases "process_choices lib env choices ?st0")
      case (Inl x)
      obtain e tr where x: "x = (e, tr)" by (cases x)
      from process_choices_Inl [of lib env choices ?st0 e tr] Inl x
      obtain evs where evs: "tr = trace ?st0 @ evs" "failure_shape e evs" by auto
      have "process_query lib env q = (Inr (''Error processing query: '' @ exc_str e),
          [ListTools (Inr tools), Completion [(''user'', q)] (Some tools) (Inr choices)] @ evs)"
        using lt t Inl x evs(1) by (simp add: process_query_def)
      moreover have "\<not> returns_normally lib env q"
        using lt t Inl by (simp add: returns_normally_def)
      ultimately show ?thesis using lt evs(2) raised by blast
    next
      case (Inr st)
      have "process_query lib env q = (Inr (join [CHR 0x0A] (final_text st)), trace st)"
        using lt t Inr by (simp add: process_query_def)
      moreover have "returns_normally lib env q"
        using lt t Inr by (simp add: returns_normally_def)
      ultimately show ?thesis using lt Inr returned by blast
    qed
  qed
qed

lemma no_failure_no_raise:
  assumes "no_failure evs"
  shows "CallTool n a (Inl e) \<notin> set evs"
proof
  assume mem: "CallTool n a (Inl e) \<in> set evs"
  from assms have "\<forall>ev\<in>set evs. raised_by ev = None"
    by (simp add: no_failure_def list_all_iff)
  with mem have "raised_by (CallTool n a (Inl e)) = None" by blast
  then show False by simp
qed

lemma normal_run:
  assumes "returns_normally lib env q" and "process_query lib env q = (r, tr)"
  obtains tools choices evs and st :: pq_state where
    "tr = [ListTools (Inr tools), Completion [(''user'', q)] (Some tools) (Inr choices)] @ evs"
    "r = Inr (join [CHR 0x0A] (final_text st))"
    "first_choices tr = choices"
    "map event_kind evs = concat (replicate (length (all_calls choices)) [KDispatch, KGenerate])"
    "no_failure evs"
    "map fst (dispatched evs) = map tc_name (all_calls choices)"
    "map (Inr \<circ> snd) (dispatched evs) = map (json_loads lib \<circ> tc_arguments) (all_calls choices)"
    "messages st = (''user'', q) # concat (map turns (zip (owners choices) (results evs)))"
    "final_text st = answer_lines lib choices evs"
    "all_calls choices \<noteq> [] \<longrightarrow> last_conversation tr = messages st"
    "all_calls choices = [] \<longrightarrow> evs = []"
proof (cases rule: run_cases [of env lib q])
  case (list_failed e)
  with assms(1) show ?thesis by simp
next
  case (generate_failed tools e)
  with assms(1) show ?thesis by simp
next
  case (raised tools choices e evs)
  with assms(1) show ?thesis by simp
next
  case (returned tools choices st)
  let ?pre = "[ListTools (Inr tools), Completion [(''user'', q)] (Some tools) (Inr choices)]"
  from process_choices_Inr [OF returned(3)] obtain evs where
    e: "trace st = ?pre @ evs"
      "map event_kind evs = concat (replicate (length (all_calls choices)) [KDispatch, KGenerate])"
      "no_failure evs"
      "map fst (dispatched evs) = map tc_name (all_calls choices)"
      "map (Inr \<circ> snd) (dispatched evs) = map (json_loads lib \<circ> tc_arguments) (all_calls choices)"
      "messages st = [(''user'', q)] @ concat (map turns (zip (owners choices) (results evs)))"
      "final_text st = [] @ answer_lines lib choices evs"
      "all_calls choices \<noteq> [] \<longrightarrow> last_conversation (trace st) = messages st"
      "all_calls choices = [] \<longrightarrow> evs = []"
    by auto
  from returned(4) assms(2) have rt: "r = Inr (join [CHR 0x0A] (final_text st))" "tr = trace st"
    by simp_all
  have fc: "first_choices tr = choices"
    using rt(2) e(1) by (simp add: first_choices_def)
  show ?thesis
    using that [of tools choices evs st] rt fc e by simp
qed

lemma normal_run_requests:
  assumes "returns_normally lib env q" and "process_query lib env q = (r, tr)"
  shows "\<exists>tools choices evs.
           tr = [ListTools (Inr tools), Completion [(''user'', q)] (Some tools) (Inr choices)] @ evs
         \<and> length (results evs) = length (all_calls choices)
         \<and> requests evs = follow_ups [(''user'', q)] (zip (owners choices) (results evs))
         \<and> answers_from env [] tr"
proof (cases "list_tools env []")
  case (Inl e)
  with assms(1) show ?thesis by (simp add: returns_normally_def)
next
  case (Inr tools)
  note lt = Inr
  show ?thesis
  proof (cases "completion env [ListTools (Inr tools)] [(''user'', q)] (Some tools)")
    case (Inl e)
    with lt assms(1) show ?thesis
      by (simp add: returns_normally_def process_query_try_def)
  next
    case (Inr choices)
    note c = Inr
    let ?pre = "[ListTools (Inr tools), Completion [(''user'', q)] (Some tools) (Inr choices)]"
    let ?st0 = "\<lparr>messages = [(''user'', q)], tool_results = [], final_text = [],
          trace = ?pre\<rparr>"
    have t: "process_query_try lib env [(''user'', q)] tools [ListTools (Inr tools)]
        = process_choices lib env choices ?st0"
      using c by (simp add: process_query_try_def)
    show ?thesis
    proof (cases "process_choices lib env choices ?st0")
      case (Inl x)
      with lt t assms(1) show ?thesis by (simp add: returns_normally_def)
    next
      case (Inr st)
      have tr: "tr = trace st"
        using lt t Inr assms(2) by (simp add: process_query_def)
      from process_choices_step [OF Inr] obtain evs where
        e: "trace st = ?pre @ evs"
          "length (results evs) = length (all_calls choices)"
          "requests evs = follow_ups [(''user'', q)] (zip (owners choices) (results evs))"
          "answers_from env ?pre evs"
        by auto
      have "answers_from env [] ?pre" using lt c by simp
      with e(4) have "answers_from env [] (?pre @ evs)"
        by (simp only: answers_from_append append_Nil)
      with tr e(1) have "answers_from env [] tr" by (simp only:)
      moreover from tr e(1) have "tr = ?pre @ evs" by (simp only:)
      ultimately show ?thesis using e(2) e(3) by blast
    qed
  qed
qed

subsection \<open>Two concrete runs\<close>

lemma scripted_run:
  "process_query sample_lib scripted_env ''pause and show the queue''
     = (Inr (join [CHR 0x0A]
          [''On it.'',
           ''[Calling tool playback with args {'' @ quoted ''action'' @ '': '' @ quoted ''pause'' @ ''}]'',
           ''Done.'',
           ''[Calling tool queue with args {'' @ quoted ''action'' @ '': '' @ quoted ''get'' @ ''}]'',
           ''Done.'']),
        [ListTools (Inr []),
         Completion [(''user'', ''pause and show the queue'')] (Some [])
           (Inr [\<lparr>msg_content = Some ''On it.'', msg_tool_calls = Some [pause_call, queue_call]\<rparr>]),
         CallTool ''playback'' (PDict [(''action'', PStr ''pause'')]) (Inr [TextContent ''ok'']),
         Completion [(''user'', ''pause and show the queue''), (''assistant'', ''On it.''), (''user'', ''ok'')]
           None (Inr [\<lparr>msg_content = Some ''Done.'', msg_tool_calls = None\<rparr>]),
         CallTool ''queue'' (PDict [(''action'', PStr ''get'')]) (Inr [TextContent ''ok'']),
         Completion [(''user'', ''pause and show the queue''), (''assistant'', ''On it.''), (''user'', ''ok''),
                     (''assistant'', ''On it.''), (''user'', ''ok'')]
           None (Inr [\<lparr>msg_content = Some ''Done.'', msg_tool_calls = None\<rparr>])])"
  by code_simp

lemma timeout_run:
  "process_query sample_lib timeout_env ''pause and show the queue''
     = (Inr ''Error processing query: Timed out'',
        [ListTools (Inr []),
         Completion [(''user'', ''pause and show the queue'')] (Some [])
           (Inr [\<lparr>msg_content = Some ''On it.'', msg_tool_calls = Some [pause_call, queue_call]\<rparr>]),
         CallTool ''playback'' (PDict [(''action'', PStr ''pause'')])
           (Inl (PyExc OtherException ''Timed out''))])"
  by code_simp

lemma scripted_returns: "returns_normally sample_lib scripted_env ''pause and show the queue''"
  by code_simp

subsection \<open>A tool call that fails\<close>

text \<open>
  Claim C4. The specification says that a failed client-side tool call is folded into the
  conversation as an error turn, so that the loop continues and the completion service
  can react. The code has one \<^verbatim>\<open>try\<close> around the whole exchange and no handler at the
  call, so what holds is: when \<^verbatim>\<open>session.call_tool\<close> raises \<open>e\<close>, that call is the last
  interaction of the run (no further tool call and no further completion request),
  nothing raised before it, and the function returns the text
  \<^verbatim>\<open>Error processing query: \<close> followed by \<^verbatim>\<open>str(e)\<close>.
\<close>

theorem tool_failure_ends_run:
  assumes "process_query lib env q = (r, tr)" and "CallTool n a (Inl e) \<in> set tr"
  shows "(\<exists>tr'. tr = tr' @ [CallTool n a (Inl e)] \<and> no_failure tr')
       \<and> r = Inr (''Error processing query: '' @ exc_str e)"
proof (cases rule: run_cases [of env lib q])
  case (list_failed e')
  with assms show ?thesis by auto
next
  case (generate_failed tools e')
  with assms show ?thesis by auto
next
  case (raised tools choices e' evs)
  let ?pre = "[ListTools (Inr tools), Completion [(''user'', q)] (Some tools) (Inr choices)]"
  from raised(3) assms(1) have tr: "tr = ?pre @ evs"
    and r: "r = Inr (''Error processing query: '' @ exc_str e')"
    by simp_all
  have pre: "no_failure ?pre" by (simp add: no_failure_def)
  from assms(2) tr have mem: "CallTool n a (Inl e) \<in> set evs" by auto
  have nf: "\<not> no_failure evs"
    using mem no_failure_no_raise [of evs n a e] by blast
  with raised(2) obtain evs' ev where
    s: "evs = evs' @ [ev]" "no_failure evs'" "raised_by ev = Some e'"
    unfolding failure_shape_def by blast
  have "CallTool n a (Inl e) \<notin> set evs'"
    using s(2) by (rule no_failure_no_raise)
  with mem s(1) have ev: "ev = CallTool n a (Inl e)" by auto
  with s(3) have "e' = e" by simp
  moreover have "tr = (?pre @ evs') @ [CallTool n a (Inl e)]"
    using tr s(1) ev by simp
  moreover have "no_failure (?pre @ evs')"
    using pre s(2) by (simp only: no_failure_append)
  ultimately show ?thesis using r by blast
next
  case (returned tools choices st)
  with assms(1) obtain tools' choices' evs where
    n: "tr = [ListTools (Inr tools'), Completion [(''user'', q)] (Some tools') (Inr choices')] @ evs"
      "no_failure evs"
    by (elim normal_run) auto
  from assms(2) n(1) have "CallTool n a (Inl e) \<in> set evs" by auto
  with n(2) have False using no_failure_no_raise [of evs n a e] by blast
  then show ?thesis ..
qed

theorem tool_failure_ends_run_witness:
  "CallTool ''playback'' (PDict [(''action'', PStr ''pause'')]) (Inl (PyExc OtherException ''Timed out''))
     \<in> set (snd (process_query sample_lib timeout_env ''pause and show the queue''))
   \<and> (\<exists>tr'. snd (process_query sample_lib timeout_env ''pause and show the queue'')
             = tr' @ [CallTool ''playback'' (PDict [(''action'', PStr ''pause'')])
                        (Inl (PyExc OtherException ''Timed out''))]
           \<and> no_failure tr')
   \<and> fst (process_query sample_lib timeout_env ''pause and show the queue'')
       = Inr ''Error processing query: Timed out''"
proof -
  let ?run = "process_query sample_lib timeout_env ''pause and show the queue''"
  let ?ev = "CallTool ''playback'' (PDict [(''action'', PStr ''pause'')])
               (Inl (PyExc OtherException ''Timed out''))"
  have a: "?run = (fst ?run, snd ?run)" by simp
  have b: "?ev \<in> set (snd ?run)" by (simp add: timeout_run)
  from tool_failure_ends_run [OF a b] b show ?thesis by simp
qed

text \<open>
  The claim as the specification words it fails on a session whose tool calls time out:
  the run ends with the failed call, and no completion request follows it.
\<close>

theorem tool_timeout_ends_run_counterexample:
  "process_query sample_lib timeout_env ''pause and show the queue''
     = (Inr ''Error processing query: Timed out'',
        [ListTools (Inr []),
         Completion [(''user'', ''pause and show the queue'')] (Some [])
           (Inr [\<lparr>msg_content = Some ''On it.'', msg_tool_calls = Some [pause_call, queue_call]\<rparr>]),
         CallTool ''playback'' (PDict [(''action'', PStr ''pause'')])
           (Inl (PyExc OtherException ''Timed out''))])
   \<and> \<not> continues_after_failure (snd (process_query sample_lib timeout_env ''pause and show the queue''))"
  by (simp add: timeout_run)

subsection \<open>The returned answer\<close>

text \<open>
  Claim C5. The specification says that the value returned on normal termination is
  exactly the concatenation of all free text the completion service produced. The code
  also appends a marker line for every tool call, takes from a follow-up response the
  text of its first choice only, and joins the lines with a newline. What holds is: on
  normal termination the returned value is the newline-join of, for each choice of the
  first response in order, its non-empty free text, and then for each tool call of that
  choice the line \<^verbatim>\<open>[Calling tool NAME with args ARGS]\<close> followed by the non-empty
  free text of the first choice of the follow-up response.
\<close>

theorem answer_is_joined_lines:
  assumes "returns_normally lib env q" and "process_query lib env q = (r, tr)"
  shows "r = Inr (join [CHR 0x0A] (answer_lines lib (first_choices tr) (drop 2 tr)))"
proof -
  from assms obtain tools choices evs and st :: pq_state where
    n: "tr = [ListTools (Inr tools), Completion [(''user'', q)] (Some tools) (Inr choices)] @ evs"
      "r = Inr (join [CHR 0x0A] (final_text st))"
      "first_choices tr = choices"
      "final_text st = answer_lines lib choices evs"
    by (rule normal_run)
  from n(1) have "drop 2 tr = evs" by simp
  with n show ?thesis by simp
qed

theorem answer_is_joined_lines_witness:
  "returns_normally sample_lib scripted_env ''pause and show the queue''
   \<and> fst (process_query sample_lib scripted_env ''pause and show the queue'')
       = Inr (join [CHR 0x0A]
           (answer_lines sample_lib
              [\<lparr>msg_content = Some ''On it.'', msg_tool_calls = Some [pause_call, queue_call]\<rparr>]
              (drop 2 (snd (process_query sample_lib scripted_env ''pause and show the queue'')))))"
proof -
  let ?run = "process_query sample_lib scripted_env ''pause and show the queue''"
  have a: "?run = (fst ?run, snd ?run)" by simp
  have f: "first_choices (snd ?run)
             = [\<lparr>msg_content = Some ''On it.'', msg_tool_calls = Some [pause_call, queue_call]\<rparr>]"
    by (simp add: scripted_run first_choices_def)
  from answer_is_joined_lines [OF scripted_returns a] scripted_returns f show ?thesis by simp
qed

text \<open>
  The claim as the specification words it fails on a run with two tool calls: the answer
  has the two marker lines and the newlines, the concatenation of the free texts has
  neither.
\<close>

theorem answer_has_marker_lines_counterexample:
  "returns_normally sample_lib scripted_env ''pause and show the queue''
   \<and> fst (process_query sample_lib scripted_env ''pause and show the queue'')
       = Inr (join [CHR 0x0A]
          [''On it.'',
           ''[Calling tool playback with args {'' @ quoted ''action'' @ '': '' @ quoted ''pause'' @ ''}]'',
           ''Done.'',
           ''[Calling tool queue with args {'' @ quoted ''action'' @ '': '' @ quoted ''get'' @ ''}]'',
           ''Done.''])
   \<and> spec_final_answer (snd (process_query sample_lib scripted_env ''pause and show the queue''))
       = ''On it.Done.Done.''
   \<and> fst (process_query sample_lib scripted_env ''pause and show the queue'')
       \<noteq> Inr (spec_final_answer (snd (process_query sample_lib scripted_env ''pause and show the queue'')))"
  by (simp add: scripted_run scripted_returns spec_final_answer_def free_texts_def content_lines_def
      quoted_def)

subsection \<open>Dispatch and the next completion request\<close>

text \<open>
  Claim C6. The specification says that the calls of one response are all dispatched
  before the completion service is invoked again. The code invokes the completion
  service inside the loop over the calls. What holds, for a run that terminates normally:
  the run is the listing of the tools, the first completion request (the query alone,
  with the tool manifest), and then, for every tool call of the first response in the
  order listed, one dispatch with the listed name and the decoded arguments, followed at
  once by one completion request, before the next call is dispatched. Every interaction
  returned, and its recorded answer is the answer of the session or of the completion
  service to the interactions before it. The request that follows a call carries no tool
  manifest, and its conversation is the conversation of the request before it extended by
  two turns: an assistant turn with the free text of the message that lists the call (or
  the empty string), then a user turn with the text of the tool result. The last request
  so carries the query and the two turns of every call.
\<close>

theorem dispatch_then_generate_each_call:
  assumes "returns_normally lib env q" and "process_query lib env q = (r, tr)"
  shows "map event_kind tr =
           [KList, KGenerate]
           @ concat (replicate (length (all_calls (first_choices tr))) [KDispatch, KGenerate])
       \<and> map fst (dispatched tr) = map tc_name (all_calls (first_choices tr))
       \<and> map (Inr \<circ> snd) (dispatched tr)
           = map (json_loads lib \<circ> tc_arguments) (all_calls (first_choices tr))
       \<and> last_conversation tr =
           (''user'', q) # concat (map turns (zip (owners (first_choices tr)) (results tr)))
       \<and> no_failure tr
       \<and> answers_from env [] tr
       \<and> length (results tr) = length (all_calls (first_choices tr))
       \<and> (\<exists>tools. take 2 tr =
             [ListTools (Inr tools),
              Completion [(''user'', q)] (Some tools) (Inr (first_choices tr))])
       \<and> requests (drop 2 tr) =
           follow_ups [(''user'', q)] (zip (owners (first_choices tr)) (results tr))"
proof -
  from assms obtain tools choices evs and st :: pq_state where
    n: "tr = [ListTools (Inr tools), Completion [(''user'', q)] (Some tools) (Inr choices)] @ evs"
      "first_choices tr = choices"
      "map event_kind evs = concat (replicate (length (all_calls choices)) [KDispatch, KGenerate])"
      "map fst (dispatched evs) = map tc_name (all_calls choices)"
      "map (Inr \<circ> snd) (dispatched evs) = map (json_loads lib \<circ> tc_arguments) (all_calls choices)"
      "messages st = (''user'', q) # concat (map turns (zip (owners choices) (results evs)))"
      "all_calls choices \<noteq> [] \<longrightarrow> last_conversation tr = messages st"
      "all_calls choices = [] \<longrightarrow> evs = []"
      "no_failure evs"
    by (rule normal_run)
  from normal_run_requests [OF assms] obtain tools' choices' evs' where
    m: "tr = [ListTools (Inr tools'), Completion [(''user'', q)] (Some tools') (Inr choices')] @ evs'"
      "length (results evs') = length (all_calls choices')"
      "requests evs' = follow_ups [(''user'', q)] (zip (owners choices') (results evs'))"
      "answers_from env [] tr"
    by blast
  from n(1) m(1) have eq: "choices' = choices" "evs' = evs" by simp_all
  have d: "dispatched tr = dispatched evs" and rs: "results tr = results evs"
    using n(1) by (simp_all add: dispatched_def results_def)
  have k: "map event_kind tr = [KList, KGenerate] @ map event_kind evs"
    using n(1) by simp
  have lc: "last_conversation tr = (''user'', q) # concat (map turns (zip (owners choices) (results evs)))"
  proof (cases "all_calls choices = []")
    case True
    with n(8) have "evs = []" by simp
    with n(1) show ?thesis by (simp add: last_conversation_def results_def)
  next
    case False
    with n(7) n(6) show ?thesis by simp
  qed
  have order: "map event_kind tr =
           [KList, KGenerate]
           @ concat (replicate (length (all_calls (first_choices tr))) [KDispatch, KGenerate])
       \<and> map fst (dispatched tr) = map tc_name (all_calls (first_choices tr))
       \<and> map (Inr \<circ> snd) (dispatched tr)
           = map (json_loads lib \<circ> tc_arguments) (all_calls (first_choices tr))
       \<and> last_conversation tr =
           (''user'', q) # concat (map turns (zip (owners (first_choices tr)) (results tr)))"
    using k d rs lc n(2) n(3) n(4) n(5) by simp
  have nf: "no_failure tr"
    using n(1) n(9) by (simp add: no_failure_def)
  have len: "length (results tr) = length (all_calls (first_choices tr))"
    using m(2) eq rs n(2) by simp
  have "take 2 tr =
      [ListTools (Inr tools), Completion [(''user'', q)] (Some tools) (Inr (first_choices tr))]"
    using n(1) n(2) by simp
  then have tk: "\<exists>tools. take 2 tr =
      [ListTools (Inr tools), Completion [(''user'', q)] (Some tools) (Inr (first_choices tr))]"
    by blast
  have "drop 2 tr = evs" using n(1) by simp
  then have rq: "requests (drop 2 tr) =
      follow_ups [(''user'', q)] (zip (owners (first_choices tr)) (results tr))"
    using m(3) eq rs n(2) by simp
  from order nf m(4) len tk rq show ?thesis by blast
qed

theorem dispatch_then_generate_each_call_witness:
  "returns_normally sample_lib scripted_env ''pause and show the queue''
   \<and> map event_kind (snd (process_query sample_lib scripted_env ''pause and show the queue''))
       = [KList, KGenerate, KDispatch, KGenerate, KDispatch, KGenerate]
   \<and> dispatched (snd (process_query sample_lib scripted_env ''pause and show the queue''))
       = [(''playback'', PDict [(''action'', PStr ''pause'')]), (''queue'', PDict [(''action'', PStr ''get'')])]
   \<and> requests (drop 2 (snd (process_query sample_lib scripted_env ''pause and show the queue'')))
       = [([(''user'', ''pause and show the queue''), (''assistant'', ''On it.''), (''user'', ''ok'')],
           None),
          ([(''user'', ''pause and show the queue''), (''assistant'', ''On it.''), (''user'', ''ok''),
            (''assistant'', ''On it.''), (''user'', ''ok'')],
           None)]
   \<and> last_conversation (snd (process_query sample_lib scripted_env ''pause and show the queue''))
       = [(''user'', ''pause and show the queue''), (''assistant'', ''On it.''), (''user'', ''ok''),
          (''assistant'', ''On it.''), (''user'', ''ok'')]
   \<and> answers_from scripted_env [] (snd (process_query sample_lib scripted_env ''pause and show the queue''))"
proof -
  let ?run = "process_query sample_lib scripted_env ''pause and show the queue''"
  have a: "?run = (fst ?run, snd ?run)" by simp
  have f: "first_choices (snd ?run)
             = [\<lparr>msg_content = Some ''On it.'', msg_tool_calls = Some [pause_call, queue_call]\<rparr>]"
    by (simp add: scripted_run first_choices_def)
  have c: "all_calls (first_choices (snd ?run)) = [pause_call, queue_call]"
    by (simp add: f all_calls_def calls_of_def)
  have d: "dispatched (snd ?run)
      = [(''playback'', PDict [(''action'', PStr ''pause'')]), (''queue'', PDict [(''action'', PStr ''get'')])]"
    by (simp add: scripted_run dispatched_def)
  have r: "results (snd ?run) = [[TextContent ''ok''], [TextContent ''ok'']]"
    by (simp add: scripted_run results_def)
  have o: "owners (first_choices (snd ?run))
      = [\<lparr>msg_content = Some ''On it.'', msg_tool_calls = Some [pause_call, queue_call]\<rparr>,
         \<lparr>msg_content = Some ''On it.'', msg_tool_calls = Some [pause_call, queue_call]\<rparr>]"
    by (simp add: f owners_def calls_of_def numeral_2_eq_2)
  have t: "\<And>m. turns (\<lparr>msg_content = Some ''On it.'', msg_tool_calls = m\<rparr>, [TextContent ''ok''])
      = [(''assistant'', ''On it.''), (''user'', ''ok'')]"
    by (simp add: turns_def content_or_empty_def response_text_def)
  note run = dispatch_then_generate_each_call [OF scripted_returns a]
  from run have "map event_kind (snd ?run) =
      [KList, KGenerate]
      @ concat (replicate (length (all_calls (first_choices (snd ?run)))) [KDispatch, KGenerate])"
    by blast
  then have k: "map event_kind (snd ?run)
      = [KList, KGenerate, KDispatch, KGenerate, KDispatch, KGenerate]"
    by (simp add: c numeral_2_eq_2)
  from run have "last_conversation (snd ?run) =
      (''user'', ''pause and show the queue'')
      # concat (map turns (zip (owners (first_choices (snd ?run))) (results (snd ?run))))"
    by blast
  then have l: "last_conversation (snd ?run)
      = [(''user'', ''pause and show the queue''), (''assistant'', ''On it.''), (''user'', ''ok''),
         (''assistant'', ''On it.''), (''user'', ''ok'')]"
    by (simp add: o r t)
  from run have "requests (drop 2 (snd ?run)) =
      follow_ups [(''user'', ''pause and show the queue'')]
        (zip (owners (first_choices (snd ?run))) (results (snd ?run)))"
    by blast
  then have q: "requests (drop 2 (snd ?run))
       = [([(''user'', ''pause and show the queue''), (''assistant'', ''On it.''), (''user'', ''ok'')],
           None),
          ([(''user'', ''pause and show the queue''), (''assistant'', ''On it.''), (''user'', ''ok''),
            (''assistant'', ''On it.''), (''user'', ''ok'')],
           None)]"
    by (simp add: o r t)
  from run have e: "answers_from scripted_env [] (snd ?run)" by blast
  from scripted_returns k d q l e show ?thesis by blast
qed

text \<open>
  The claim as the specification words it fails on a first response with two tool
  calls: a completion request lies between the two dispatches.
\<close>

theorem generate_between_calls_counterexample:
  "returns_normally sample_lib scripted_env ''pause and show the queue''
   \<and> all_calls (first_choices (snd (process_query sample_lib scripted_env ''pause and show the queue'')))
       = [pause_call, queue_call]
   \<and> map event_kind (snd (process_query sample_lib scripted_env ''pause and show the queue''))
       = [KList, KGenerate, KDispatch, KGenerate, KDispatch, KGenerate]
   \<and> map event_kind (snd (process_query sample_lib scripted_env ''pause and show the queue''))
       \<noteq> spec_round_kinds 2"
  by (simp add: scripted_run scripted_returns first_choices_def all_calls_def calls_of_def
      spec_round_kinds_def numeral_2_eq_2)

end
